theory Spec2Isabelle
  imports Complex_Main
begin

section \<open>Host-language values\<close>

text \<open>
  The library validates already-deserialized in-memory values of the host language.
  A number is an IEEE double in the source; it is modelled as an exact rational together
  with the three special values, which is all the comparisons of the validators look at.
  A date object is its time value in milliseconds, \<open>None\<close> standing for the invalid date.
  An object is two lists of properties. The first holds its own enumerable properties in
  enumeration order: what \<open>Object.keys\<close> lists. The second holds the other properties
  that a read \<open>value[key]\<close> finds on it: those it inherits through its prototype chain,
  such as \<open>constructor\<close> and \<open>toString\<close>, and its own properties that are not enumerable.
  Functions and symbols are opaque.
\<close>

datatype jsnum = Fin rat | PosInf | NegInf | NaN

type_synonym jsdate = "int option"

datatype jsval =
    JUndefined
  | JNull
  | JBool bool
  | JNum jsnum
  | JStr string
  | JDate jsdate
  | JArr "jsval list"
  | JObj "(string \<times> jsval) list" "(string \<times> jsval) list"
  | JFunction nat
  | JSymbol nat

fun typeof :: "jsval \<Rightarrow> string" where
  "typeof JUndefined = ''undefined''"
| "typeof JNull = ''object''"
| "typeof (JBool b) = ''boolean''"
| "typeof (JNum n) = ''number''"
| "typeof (JStr s) = ''string''"
| "typeof (JDate d) = ''object''"
| "typeof (JArr xs) = ''object''"
| "typeof (JObj kvs inherited) = ''object''"
| "typeof (JFunction f) = ''function''"
| "typeof (JSymbol f) = ''symbol''"

fun isArray :: "jsval \<Rightarrow> bool" where
  "isArray (JArr xs) = True"
| "isArray v = False"


text \<open>Truthiness, as \<open>!!value\<close> computes it.\<close>

fun truthy :: "jsval \<Rightarrow> bool" where
  "truthy JUndefined = False"
| "truthy JNull = False"
| "truthy (JBool b) = b"
| "truthy (JNum n) = (n \<noteq> NaN \<and> n \<noteq> Fin 0)"
| "truthy (JStr s) = (s \<noteq> [])"
| "truthy v = True"

subsection \<open>Numbers\<close>

fun num_lt :: "jsnum \<Rightarrow> jsnum \<Rightarrow> bool" where
  "num_lt NaN b = False"
| "num_lt a NaN = False"
| "num_lt (Fin a) (Fin b) = (a < b)"
| "num_lt (Fin a) PosInf = True"
| "num_lt NegInf (Fin b) = True"
| "num_lt NegInf PosInf = True"
| "num_lt a b = False"

definition num_gt :: "jsnum \<Rightarrow> jsnum \<Rightarrow> bool" where
  "num_gt a b = num_lt b a"

definition num_le :: "jsnum \<Rightarrow> jsnum \<Rightarrow> bool" where
  "num_le a b = (a \<noteq> NaN \<and> b \<noteq> NaN \<and> (a = b \<or> num_lt a b))"

definition num_ge :: "jsnum \<Rightarrow> jsnum \<Rightarrow> bool" where
  "num_ge a b = num_le b a"

fun isFinite :: "jsnum \<Rightarrow> bool" where
  "isFinite (Fin a) = True"
| "isFinite a = False"

fun isInteger :: "jsnum \<Rightarrow> bool" where
  "isInteger (Fin a) = (of_int \<lfloor>a\<rfloor> = a)"
| "isInteger a = False"

text \<open>The remainder operator \<open>%\<close>: the result takes the sign of the dividend.\<close>

definition trunc :: "rat \<Rightarrow> int" where
  "trunc q = (if 0 \<le> q then \<lfloor>q\<rfloor> else \<lceil>q\<rceil>)"

fun js_rem :: "jsnum \<Rightarrow> jsnum \<Rightarrow> jsnum" where
  "js_rem (Fin a) (Fin b) = (if b = 0 then NaN else Fin (a - b * of_int (trunc (a / b))))"
| "js_rem (Fin a) PosInf = Fin a"
| "js_rem (Fin a) NegInf = Fin a"
| "js_rem a b = NaN"

text \<open>The length of a string or an array, as a number.\<close>

definition number_of :: "nat \<Rightarrow> jsnum" where
  "number_of n = Fin (of_nat n)"

subsection \<open>Strings\<close>

text \<open>
  Strings are lists of 8-bit characters, the character with code \<open>n\<close> standing for the
  code unit \<open>n\<close>. White space is what \<open>trim\<close>, \<open>\s\<close> and \<open>parseInt\<close> of the host language
  take for white space among these code units: tab, line feed, vertical tab, form feed,
  carriage return, space and the no-break space \<open>U+00A0\<close>.
\<close>

definition is_space :: "char \<Rightarrow> bool" where
  "is_space c =
     (c \<in> set [CHR 0x09, CHR 0x0A, CHR 0x0B, CHR 0x0C, CHR 0x0D, CHR '' '', CHR 0xA0])"

definition is_digit :: "char \<Rightarrow> bool" where
  "is_digit c = (c \<in> set ''0123456789'')"

definition is_lower :: "char \<Rightarrow> bool" where
  "is_lower c = (c \<in> set ''abcdefghijklmnopqrstuvwxyz'')"

definition is_upper :: "char \<Rightarrow> bool" where
  "is_upper c = (c \<in> set ''ABCDEFGHIJKLMNOPQRSTUVWXYZ'')"

definition is_alpha :: "char \<Rightarrow> bool" where
  "is_alpha c = (is_lower c \<or> is_upper c)"

definition trim :: "string \<Rightarrow> string" where
  "trim s = rev (dropWhile is_space (rev (dropWhile is_space s)))"

text \<open>
  \<open>toLowerCase\<close> maps the letters \<open>A\<close> to \<open>Z\<close> and, among the code units above 127, the
  capital letters \<open>U+00C0\<close> to \<open>U+00DE\<close> other than the multiplication sign \<open>U+00D7\<close>.
\<close>

definition has_lower :: "char \<Rightarrow> bool" where
  "has_lower c =
     (is_upper c
      \<or> (0xC0 \<le> (of_char c :: nat) \<and> (of_char c :: nat) \<le> 0xDE \<and> c \<noteq> CHR 0xD7))"

definition toLowerCase :: "string \<Rightarrow> string" where
  "toLowerCase s = map (\<lambda>c. if has_lower c then char_of (of_char c + (32::nat)) else c) s"

fun str_includes :: "string \<Rightarrow> string \<Rightarrow> bool" where
  "str_includes [] sub = (sub = [])"
| "str_includes (c # cs) sub = (take (length sub) (c # cs) = sub \<or> str_includes cs sub)"

definition startsWith :: "string \<Rightarrow> string \<Rightarrow> bool" where
  "startsWith s pre = (take (length pre) s = pre)"

definition endsWith :: "string \<Rightarrow> string \<Rightarrow> bool" where
  "endsWith s suf = (length suf \<le> length s \<and> drop (length s - length suf) s = suf)"

text \<open>\<open>s.split(c)\<close> for a one-character separator.\<close>

fun str_split :: "char \<Rightarrow> string \<Rightarrow> string list" where
  "str_split c [] = [[]]"
| "str_split c (x # xs) =
     (if x = c then [] # str_split c xs
      else (case str_split c xs of [] \<Rightarrow> [[x]] | w # ws \<Rightarrow> (x # w) # ws))"

text \<open>
  \<open>parseInt\<close>: leading white space, an optional sign, a hexadecimal prefix when no
  radix is given, then the longest run of digits; \<open>None\<close> is the not-a-number result.
\<close>

definition digit_val :: "char \<Rightarrow> nat" where
  "digit_val c =
     (if is_digit c then of_char c - 48
      else if is_lower c then of_char c - 87
      else if is_upper c then of_char c - 55
      else 36)"

definition digits_value :: "nat \<Rightarrow> string \<Rightarrow> int" where
  "digits_value radix ds = foldl (\<lambda>acc c. acc * int radix + int (digit_val c)) 0 ds"

definition parseInt_radix :: "nat option \<Rightarrow> string \<Rightarrow> int option" where
  "parseInt_radix radix s =
     (let t = dropWhile is_space s;
          neg = (take 1 t = ''-'');
          u = (if take 1 t = ''-'' \<or> take 1 t = ''+'' then drop 1 t else t);
          hex = ((radix = None \<or> radix = Some 16) \<and> (take 2 u = ''0x'' \<or> take 2 u = ''0X''));
          r = (if hex then 16 else (case radix of None \<Rightarrow> 10 | Some k \<Rightarrow> k));
          w = (if hex then drop 2 u else u);
          ds = takeWhile (\<lambda>c. digit_val c < r) w
      in if ds = [] then None
         else Some ((if neg then - 1 else 1) * digits_value r ds))"

definition parseInt :: "string \<Rightarrow> int option" where
  "parseInt s = parseInt_radix None s"

text \<open>Decimal rendering of an array index inside a template string.\<close>

definition digit_char :: "nat \<Rightarrow> char" where
  "digit_char d = ''0123456789'' ! d"

function show_nat :: "nat \<Rightarrow> string" where
  "show_nat n =
     (if n < 10 then [digit_char n] else show_nat (n div 10) @ [digit_char (n mod 10)])"
  by pat_completeness auto
termination
  by (relation "measure (\<lambda>n. n)") auto

declare show_nat.simps [simp del]

subsection \<open>Regular expressions of the source\<close>

text \<open>
  The regular-expression literals of the validators are written as terms of a small
  expression type and matched by derivatives; every literal of the source is anchored
  at both ends unless said otherwise.
\<close>

datatype rx =
    RNone
  | REps
  | RSym "char \<Rightarrow> bool"
  | RAlt rx rx
  | RSeq rx rx
  | RStar rx

fun rx_eps :: "rx \<Rightarrow> bool" where
  "rx_eps RNone = False"
| "rx_eps REps = True"
| "rx_eps (RSym P) = False"
| "rx_eps (RAlt r s) = (rx_eps r \<or> rx_eps s)"
| "rx_eps (RSeq r s) = (rx_eps r \<and> rx_eps s)"
| "rx_eps (RStar r) = True"

fun rx_deriv :: "char \<Rightarrow> rx \<Rightarrow> rx" where
  "rx_deriv c RNone = RNone"
| "rx_deriv c REps = RNone"
| "rx_deriv c (RSym P) = (if P c then REps else RNone)"
| "rx_deriv c (RAlt r s) = RAlt (rx_deriv c r) (rx_deriv c s)"
| "rx_deriv c (RSeq r s) =
     (if rx_eps r then RAlt (RSeq (rx_deriv c r) s) (rx_deriv c s)
      else RSeq (rx_deriv c r) s)"
| "rx_deriv c (RStar r) = RSeq (rx_deriv c r) (RStar r)"

fun rx_test :: "rx \<Rightarrow> string \<Rightarrow> bool" where
  "rx_test r [] = rx_eps r"
| "rx_test r (c # cs) = rx_test (rx_deriv c r) cs"

definition RChar :: "char \<Rightarrow> rx" where
  "RChar c = RSym (\<lambda>x. x = c)"

definition RPlus :: "rx \<Rightarrow> rx" where
  "RPlus r = RSeq r (RStar r)"

definition ROpt :: "rx \<Rightarrow> rx" where
  "ROpt r = RAlt REps r"

fun RRep :: "nat \<Rightarrow> rx \<Rightarrow> rx" where
  "RRep 0 r = REps"
| "RRep (Suc n) r = RSeq r (RRep n r)"

fun RCat :: "rx list \<Rightarrow> rx" where
  "RCat [] = REps"
| "RCat (r # rs) = RSeq r (RCat rs)"

definition RDigit :: rx where
  "RDigit = RSym is_digit"

text \<open>The literals, in the order in which the validators use them.\<close>

definition emailRegex :: rx where
  \<comment> \<open>\<^verbatim>\<open>/^[a-zA-Z0-9._%+-]+@[a-zA-Z0-9.-]+\.[a-zA-Z]{2,}$/\<close>\<close>
  "emailRegex =
     RCat [RPlus (RSym (\<lambda>c. is_alpha c \<or> is_digit c \<or> c \<in> set ''._%+-'')),
           RChar (CHR ''@''),
           RPlus (RSym (\<lambda>c. is_alpha c \<or> is_digit c \<or> c \<in> set ''.-'')),
           RChar (CHR ''.''),
           RSym is_alpha, RSym is_alpha, RStar (RSym is_alpha)]"

definition RHex :: rx where
  \<comment> \<open>\<^verbatim>\<open>[0-9a-f]\<close> under the case-insensitive flag\<close>
  "RHex = RSym (\<lambda>c. c \<in> set ''0123456789abcdefABCDEF'')"

definition uuidRegex :: rx where
  \<comment> \<open>\<^verbatim>\<open>/^[0-9a-f]{8}-[0-9a-f]{4}-[1-5][0-9a-f]{3}-[89ab][0-9a-f]{3}-[0-9a-f]{12}$/i\<close>\<close>
  "uuidRegex =
     RCat [RRep 8 RHex, RChar (CHR ''-''),
           RRep 4 RHex, RChar (CHR ''-''),
           RSym (\<lambda>c. c \<in> set ''12345''), RRep 3 RHex, RChar (CHR ''-''),
           RSym (\<lambda>c. c \<in> set ''89abAB''), RRep 3 RHex, RChar (CHR ''-''),
           RRep 12 RHex]"

definition isoRegex :: rx where
  \<comment> \<open>\<^verbatim>\<open>/^\d{4}-\d{2}-\d{2}T\d{2}:\d{2}:\d{2}(\.\d{3})?Z?$/\<close>\<close>
  "isoRegex =
     RCat [RRep 4 RDigit, RChar (CHR ''-''), RRep 2 RDigit, RChar (CHR ''-''), RRep 2 RDigit,
           RChar (CHR ''T''),
           RRep 2 RDigit, RChar (CHR '':''), RRep 2 RDigit, RChar (CHR '':''), RRep 2 RDigit,
           ROpt (RSeq (RChar (CHR ''.'')) (RRep 3 RDigit)),
           ROpt (RChar (CHR ''Z''))]"

definition digitsRegex :: rx where
  \<comment> \<open>\<^verbatim>\<open>/^\d+$/\<close>\<close>
  "digitsRegex = RPlus RDigit"

definition wordsRegex :: rx where
  \<comment> \<open>\<^verbatim>\<open>/^[a-zA-Z\s]+$/\<close>\<close>
  "wordsRegex = RPlus (RSym (\<lambda>c. is_alpha c \<or> is_space c))"

definition someDigitRegex :: rx where
  \<comment> \<open>\<^verbatim>\<open>/\d/\<close>, not anchored\<close>
  "someDigitRegex = RCat [RStar (RSym (\<lambda>c. True)), RDigit, RStar (RSym (\<lambda>c. True))]"

subsection \<open>Built-ins of the platform\<close>

text \<open>
  The validators call built-ins whose algorithms belong to the platform and not to the
  library: date parsing and formatting, number formatting, URL parsing and JSON
  serialization. They are a parameter of the model; every theorem holds for every
  platform. So are the two prototypes the object validator meets, \<open>Object.prototype\<close>
  behind the object it builds and \<open>Date.prototype\<close> behind a date it is given, and, since
  a value keeps no prototype chain here, the properties that an object finds through its
  chain once its prototype is a given object.
\<close>

record host =
  date_parse :: "string \<Rightarrow> jsdate"
  date_toISOString :: "int \<Rightarrow> string"
  num_toString :: "jsnum \<Rightarrow> string"
  url_parse :: "string \<Rightarrow> (string \<times> string) option"
  json_stringify :: "jsval \<Rightarrow> string"
  object_prototype :: jsval
  date_prototype :: jsval
  inherited_from :: "jsval \<Rightarrow> (string \<times> jsval) list"

text \<open>
  \<open>url_parse\<close> gives the protocol and the host name of \<open>new URL(s)\<close>, or \<open>None\<close>
  when the constructor throws. \<open>new Date(n)\<close> for a number is fixed by the language:
  the time value is clipped.
\<close>

fun date_of_num :: "jsnum \<Rightarrow> jsdate" where
  "date_of_num (Fin t) = (if \<bar>t\<bar> \<le> 8640000000000000 then Some (trunc t) else None)"
| "date_of_num t = None"

text \<open>Comparison of two dates compares their time values; an invalid date compares false.\<close>

fun date_lt :: "jsdate \<Rightarrow> jsdate \<Rightarrow> bool" where
  "date_lt (Some a) (Some b) = (a < b)"
| "date_lt a b = False"

section \<open>Results and errors\<close>

record validation_error =
  path :: string
  message :: string
  val :: jsval

text \<open>The field \<open>data\<close> is absent exactly when it reads as \<open>JUndefined\<close>.\<close>

record validation_result =
  isValid :: bool
  data :: jsval
  errors :: "validation_error list"

definition createError :: "string \<Rightarrow> string \<Rightarrow> jsval \<Rightarrow> validation_error" where
  "createError p m v = \<lparr>path = p, message = m, val = v\<rparr>"

definition createSuccess :: "jsval \<Rightarrow> validation_result" where
  "createSuccess d = \<lparr>isValid = True, data = d, errors = []\<rparr>"

definition createFailure :: "validation_error list \<Rightarrow> validation_result" where
  "createFailure es = \<lparr>isValid = False, data = JUndefined, errors = es\<rparr>"

text \<open>\<open>if (c) errors.push(e)\<close>\<close>

definition push_if :: "bool \<Rightarrow> validation_error \<Rightarrow> validation_error list" where
  "push_if c e = (if c then [e] else [])"

section \<open>Validator configuration\<close>

record validator_options =
  o_message :: "string option"
  o_optional :: bool

record string_options = validator_options +
  s_minLength :: "jsnum option"
  s_maxLength :: "jsnum option"
  s_pattern :: "(string \<Rightarrow> bool) option"
  s_trim :: bool
  s_email :: bool
  s_url :: bool
  s_uuid :: bool

record number_options = validator_options +
  n_min :: "jsnum option"
  n_max :: "jsnum option"
  n_integer :: bool
  n_positive :: bool
  n_negative :: bool
  n_finite :: bool
  n_multipleOf :: "jsnum option"

record boolean_options = validator_options +
  b_strict :: bool
  b_truthy :: bool

datatype date_format = Iso | Timestamp | StringFormat

record date_options = validator_options +
  d_min :: "jsdate option"
  d_max :: "jsdate option"
  d_format :: "date_format option"

record array_options = validator_options +
  a_minLength :: "jsnum option"
  a_maxLength :: "jsnum option"
  a_unique :: bool
  a_noEmpty :: bool

record object_options = validator_options +
  ob_strict :: bool
  ob_partial :: bool
  ob_allowNull :: bool

section \<open>Scalar validators\<close>

subsection \<open>StringValidator.validateValue\<close>

definition validateValue_string ::
  "host \<Rightarrow> string_options \<Rightarrow> jsval \<Rightarrow> string \<Rightarrow> validation_result" where
  "validateValue_string h so v p =
     (case v of
        JStr s \<Rightarrow>
          (let stringValue = (if s_trim so then trim s else s);
               errors =
                 (case s_minLength so of
                    None \<Rightarrow> []
                  | Some m \<Rightarrow>
                      push_if (num_lt (number_of (length stringValue)) m)
                        (createError p
                           (''String must be at least '' @ num_toString h m @ '' characters long'') v))
                 @ (case s_maxLength so of
                      None \<Rightarrow> []
                    | Some m \<Rightarrow>
                        push_if (num_gt (number_of (length stringValue)) m)
                          (createError p
                             (''String must be at most '' @ num_toString h m @ '' characters long'') v))
                 @ (case s_pattern so of
                      None \<Rightarrow> []
                    | Some test \<Rightarrow>
                        push_if (\<not> test stringValue)
                          (createError p ''String does not match required pattern'' v))
                 @ (if s_email so
                    then push_if
                           (\<not> rx_test emailRegex stringValue
                            \<or> str_includes stringValue ''..''
                            \<or> startsWith stringValue ''.''
                            \<or> endsWith stringValue ''.''
                            \<or> str_includes stringValue '' '')
                           (createError p ''Invalid email format'' v)
                    else [])
                 @ (if s_url so
                    then (case url_parse h stringValue of
                            None \<Rightarrow> [createError p ''Invalid URL format'' v]
                          | Some (protocol, hostname) \<Rightarrow>
                              push_if
                                (hostname = []
                                 \<or> protocol = []
                                 \<or> (protocol \<noteq> ''http:'' \<and> protocol \<noteq> ''https:'')
                                 \<or> endsWith hostname ''.''
                                 \<or> startsWith hostname ''.'')
                                (createError p ''Invalid URL format'' v))
                    else [])
                 @ (if s_uuid so
                    then push_if (\<not> rx_test uuidRegex stringValue)
                           (createError p ''Invalid UUID format'' v)
                    else [])
           in if errors \<noteq> [] then createFailure errors else createSuccess (JStr stringValue))
      | _ \<Rightarrow> createFailure [createError p (''Expected string, received '' @ typeof v) v])"

subsection \<open>NumberValidator.validateValue\<close>

definition validateValue_number ::
  "host \<Rightarrow> number_options \<Rightarrow> jsval \<Rightarrow> string \<Rightarrow> validation_result" where
  "validateValue_number h no v p =
     (case v of
        JNum n \<Rightarrow>
          (if n = NaN
           then createFailure [createError p ''Value must be a valid number (not NaN)'' v]
           else
             (let errors =
                    push_if (n_finite no \<and> \<not> isFinite n) (createError p ''Number must be finite'' v)
                    @ (case n_min no of
                         None \<Rightarrow> []
                       | Some m \<Rightarrow>
                           push_if (num_lt n m)
                             (createError p (''Number must be at least '' @ num_toString h m) v))
                    @ (case n_max no of
                         None \<Rightarrow> []
                       | Some m \<Rightarrow>
                           push_if (num_gt n m)
                             (createError p (''Number must be at most '' @ num_toString h m) v))
                    @ push_if (n_integer no \<and> \<not> isInteger n)
                        (createError p ''Number must be an integer'' v)
                    @ push_if (n_positive no \<and> num_le n (Fin 0))
                        (createError p ''Number must be positive'' v)
                    @ push_if (n_negative no \<and> num_ge n (Fin 0))
                        (createError p ''Number must be negative'' v)
                    @ (case n_multipleOf no of
                         None \<Rightarrow> []
                       | Some m \<Rightarrow>
                           push_if (js_rem n m \<noteq> Fin 0)
                             (createError p (''Number must be a multiple of '' @ num_toString h m) v))
              in if errors \<noteq> [] then createFailure errors else createSuccess v))
      | _ \<Rightarrow> createFailure [createError p (''Expected number, received '' @ typeof v) v])"

subsection \<open>BooleanValidator.validateValue\<close>

definition validateValue_boolean ::
  "boolean_options \<Rightarrow> jsval \<Rightarrow> string \<Rightarrow> validation_result" where
  "validateValue_boolean bo v p =
     (if b_strict bo
      then (case v of
              JBool b \<Rightarrow> createSuccess v
            | _ \<Rightarrow> createFailure [createError p (''Expected boolean, received '' @ typeof v) v])
      else if b_truthy bo then createSuccess (JBool (truthy v))
      else
        (case v of
           JBool b \<Rightarrow> createSuccess v
         | JStr s \<Rightarrow>
             (let lowerValue = trim (toLowerCase s)
              in if lowerValue = ''true'' \<or> lowerValue = ''1'' \<or> lowerValue = ''yes''
                    \<or> lowerValue = ''on''
                 then createSuccess (JBool True)
                 else if lowerValue = ''false'' \<or> lowerValue = ''0'' \<or> lowerValue = ''no''
                    \<or> lowerValue = ''off''
                 then createSuccess (JBool False)
                 else createFailure
                        [createError p (''Cannot convert '' @ typeof v @ '' to boolean'') v])
         | JNum n \<Rightarrow>
             (if n = Fin 1 then createSuccess (JBool True)
              else if n = Fin 0 then createSuccess (JBool False)
              else createFailure
                     [createError p (''Cannot convert '' @ typeof v @ '' to boolean'') v])
         | _ \<Rightarrow>
             createFailure [createError p (''Cannot convert '' @ typeof v @ '' to boolean'') v]))"

subsection \<open>DateValidator.validateValue\<close>

text \<open>The format check that runs first when a format is configured.\<close>

definition date_format_error :: "date_options \<Rightarrow> jsval \<Rightarrow> string \<Rightarrow> validation_error list" where
  "date_format_error dopt v p =
     (case d_format dopt of
        Some Iso \<Rightarrow>
          (case v of
             JStr s \<Rightarrow>
               push_if (\<not> rx_test isoRegex s)
                 (createError p ''Date must be in ISO format (YYYY-MM-DDTHH:mm:ss.sssZ)'' v)
           | _ \<Rightarrow> [createError p ''Date must be in ISO format (YYYY-MM-DDTHH:mm:ss.sssZ)'' v])
      | Some Timestamp \<Rightarrow>
          (case v of
             JNum n \<Rightarrow> []
           | JStr s \<Rightarrow>
               push_if (\<not> rx_test digitsRegex s)
                 (createError p ''Date must be a valid timestamp'' v)
           | _ \<Rightarrow> [createError p ''Date must be a valid timestamp'' v])
      | _ \<Rightarrow> [])"

text \<open>The strings rejected before a date is constructed.\<close>

definition clearly_invalid :: "string \<Rightarrow> bool" where
  "clearly_invalid s =
     (trim s = [] \<or> s = ''invalid'' \<or> s = ''not-a-date'' \<or> s = ''not a date''
      \<or> s = ''invalid-date'' \<or> rx_test wordsRegex (trim s))"

text \<open>
  The checks on the text of a date string after the date was constructed: \<open>True\<close> when
  the text is rejected. A part that \<open>parseInt\<close> does not read compares false with every
  bound.
\<close>

definition implausible :: "string \<Rightarrow> bool" where
  "implausible s =
     (let originalString = trim s
      in if length originalString < 4 \<or> \<not> rx_test someDigitRegex originalString
            \<or> originalString = ''Invalid Date''
         then True
         else if str_includes originalString ''-''
         then (let parts = str_split (CHR ''-'') originalString
               in if 3 \<le> length parts
                  then (case (parseInt (parts ! 1), parseInt (parts ! 2)) of
                          (month, day) \<Rightarrow>
                            (case month of Some m \<Rightarrow> 12 < m \<or> m < 1 | None \<Rightarrow> False)
                            \<or> (case day of Some d \<Rightarrow> 31 < d \<or> d < 1 | None \<Rightarrow> False)
                            \<or> (month = Some 2 \<and> (case day of Some d \<Rightarrow> 29 < d | None \<Rightarrow> False)))
                  else False)
         else False)"

text \<open>The bound checks on the constructed date.\<close>

definition date_bound_errors ::
  "host \<Rightarrow> date_options \<Rightarrow> jsdate \<Rightarrow> jsval \<Rightarrow> string \<Rightarrow> validation_error list" where
  "date_bound_errors h dopt dateValue v p =
     (case d_min dopt of
        None \<Rightarrow> []
      | Some m \<Rightarrow>
          push_if (date_lt dateValue m)
            (createError p (''Date must be after '' @ date_toISOString h (the m)) v))
     @ (case d_max dopt of
          None \<Rightarrow> []
        | Some m \<Rightarrow>
            push_if (date_lt m dateValue)
              (createError p (''Date must be before '' @ date_toISOString h (the m)) v))"

definition validateValue_date ::
  "host \<Rightarrow> date_options \<Rightarrow> jsval \<Rightarrow> string \<Rightarrow> validation_result" where
  "validateValue_date h dopt v p =
     (if date_format_error dopt v p \<noteq> [] then createFailure (date_format_error dopt v p)
      else
        (case v of
           JDate d \<Rightarrow>
             (if d = None then createFailure [createError p ''Invalid date'' v]
              else if date_bound_errors h dopt d v p \<noteq> []
              then createFailure (date_bound_errors h dopt d v p)
              else createSuccess (JDate d))
         | JStr s \<Rightarrow>
             (if d_format dopt = None \<and> clearly_invalid s
              then createFailure [createError p ''Invalid date'' v]
              else
                (let dateValue =
                       (if d_format dopt = Some Timestamp
                        then (case parseInt_radix (Some 10) s of
                                None \<Rightarrow> None
                              | Some t \<Rightarrow> date_of_num (Fin (of_int t)))
                        else date_parse h s)
                 in if dateValue = None then createFailure [createError p ''Invalid date'' v]
                    else if trim s \<noteq> [] \<and> d_format dopt = None \<and> implausible s
                    then createFailure [createError p ''Invalid date'' v]
                    else if date_bound_errors h dopt dateValue v p \<noteq> []
                    then createFailure (date_bound_errors h dopt dateValue v p)
                    else createSuccess (JDate dateValue)))
         | JNum n \<Rightarrow>
             (let dateValue = date_of_num n
              in if dateValue = None then createFailure [createError p ''Invalid date'' v]
                 else if date_bound_errors h dopt dateValue v p \<noteq> []
                 then createFailure (date_bound_errors h dopt dateValue v p)
                 else createSuccess (JDate dateValue))
         | _ \<Rightarrow>
             createFailure
               [createError p (''Expected Date, string, or number, received '' @ typeof v) v]))"

section \<open>Validators\<close>

text \<open>
  A validator is an instance of one of the six classes, holding its options and its
  child validators, or one of the three object literals the factory builds. The union
  literal carries the message of its \<open>withMessage\<close> wrapper, when it has one.
\<close>

datatype validator =
    StringValidator string_options
  | NumberValidator number_options
  | BooleanValidator boolean_options
  | DateValidator date_options
  | ArrayValidator validator array_options
  | ObjectValidator "(string \<times> validator) list" object_options
  | AnyValidator
  | NullableValidator validator
  | UnionValidator "validator list" "string option"

text \<open>\<open>validator instanceof BaseValidator\<close>: an instance of one of the six classes.\<close>

fun isBaseValidator :: "validator \<Rightarrow> bool" where
  "isBaseValidator AnyValidator = False"
| "isBaseValidator (NullableValidator validator) = False"
| "isBaseValidator (UnionValidator validators msg) = False"
| "isBaseValidator validator = True"

text \<open>The base options of an instance: \<open>this.options\<close> of the base class.\<close>

fun options_optional :: "validator \<Rightarrow> bool" where
  "options_optional (StringValidator opts) = o_optional opts"
| "options_optional (NumberValidator opts) = o_optional opts"
| "options_optional (BooleanValidator opts) = o_optional opts"
| "options_optional (DateValidator opts) = o_optional opts"
| "options_optional (ArrayValidator item opts) = o_optional opts"
| "options_optional (ObjectValidator schema opts) = o_optional opts"
| "options_optional v = False"

fun options_message :: "validator \<Rightarrow> string option" where
  "options_message (StringValidator opts) = o_message opts"
| "options_message (NumberValidator opts) = o_message opts"
| "options_message (BooleanValidator opts) = o_message opts"
| "options_message (DateValidator opts) = o_message opts"
| "options_message (ArrayValidator item opts) = o_message opts"
| "options_message (ObjectValidator schema opts) = o_message opts"
| "options_message v = None"

text \<open>\<open>result.errors.map((error) => ({ ...error, message }))\<close>\<close>

definition replace_messages :: "string \<Rightarrow> validation_result \<Rightarrow> validation_result" where
  "replace_messages m result =
     result\<lparr>errors := map (\<lambda>error. error\<lparr>message := m\<rparr>) (errors result)\<rparr>"

text \<open>
  The last step of the base class's \<open>validate\<close>: a failure takes the custom message
  when \<open>this.options.message\<close> is truthy, that is, set and not the empty string.
\<close>

definition apply_message :: "string option \<Rightarrow> validation_result \<Rightarrow> validation_result" where
  "apply_message msg result =
     (case msg of
        None \<Rightarrow> result
      | Some m \<Rightarrow> if \<not> isValid result \<and> m \<noteq> [] then replace_messages m result else result)"

text \<open>The wrapper that \<open>withMessage\<close> puts around the \<open>validate\<close> of a union.\<close>

definition union_message :: "string option \<Rightarrow> validation_result \<Rightarrow> validation_result" where
  "union_message msg result =
     (case msg of
        None \<Rightarrow> result
      | Some m \<Rightarrow> if \<not> isValid result then replace_messages m result else result)"

definition union_failure :: "jsval \<Rightarrow> string \<Rightarrow> validation_result" where
  "union_failure v p =
     \<lparr>isValid = False, data = JUndefined,
      errors = [\<lparr>path = p, message = ''Value does not match any of the union types'', val = v\<rparr>]\<rparr>"

subsection \<open>Helpers of the array validator\<close>

definition itemPath :: "string \<Rightarrow> nat \<Rightarrow> string" where
  "itemPath p i = p @ ''['' @ show_nat i @ '']''"

text \<open>The loop over the item results: errors of failed items, data of the others.\<close>

fun collect_items ::
  "validation_result list \<Rightarrow> validation_error list \<Rightarrow> jsval list
     \<Rightarrow> validation_error list \<times> jsval list" where
  "collect_items [] errs validatedItems = (errs, validatedItems)"
| "collect_items (itemResult # rest) errs validatedItems =
     (if \<not> isValid itemResult then collect_items rest (errs @ errors itemResult) validatedItems
      else if data itemResult \<noteq> JUndefined
      then collect_items rest errs (validatedItems @ [data itemResult])
      else collect_items rest errs validatedItems)"

text \<open>The key under which an item enters the set \<open>seen\<close>.\<close>

definition unique_key :: "host \<Rightarrow> jsval \<Rightarrow> jsval" where
  "unique_key h item =
     (if typeof item = ''object'' \<and> item \<noteq> JNull then JStr (json_stringify h item) else item)"

text \<open>The loop over the validated items: the indices added to the set \<open>duplicates\<close>.\<close>

fun scan_duplicates :: "host \<Rightarrow> jsval list \<Rightarrow> nat \<Rightarrow> jsval set \<Rightarrow> nat list" where
  "scan_duplicates h [] i seen = []"
| "scan_duplicates h (item # rest) i seen =
     (if unique_key h item \<in> seen then i # scan_duplicates h rest (Suc i) seen
      else scan_duplicates h rest (Suc i) (insert (unique_key h item) seen))"

subsection \<open>Helpers of the object validator\<close>

definition fieldPath :: "string \<Rightarrow> string \<Rightarrow> string" where
  "fieldPath p key = (if p = ''root'' then key else p @ ''.'' @ key)"

text \<open>
  \<open>value[key]\<close> for the values that reach the loops of the object validator, which are
  the objects and the dates: an own property first, then what the value inherits.
\<close>

fun get_prop :: "host \<Rightarrow> jsval \<Rightarrow> string \<Rightarrow> jsval" where
  "get_prop h (JObj kvs inherited) key =
     (case map_of kvs key of
        Some x \<Rightarrow> x
      | None \<Rightarrow> (case map_of inherited key of Some x \<Rightarrow> x | None \<Rightarrow> JUndefined))"
| "get_prop h (JDate d) key =
     (case map_of (inherited_from h (date_prototype h)) key of
        Some x \<Rightarrow> x
      | None \<Rightarrow> JUndefined)"
| "get_prop h v key = JUndefined"

text \<open>\<open>Object.keys(value)\<close>\<close>

fun keys :: "jsval \<Rightarrow> string list" where
  "keys (JObj kvs inherited) = map fst kvs"
| "keys v = []"

text \<open>
  An object enumerates the keys that are array indices first, in ascending order, and
  the other keys in the order of their creation. An array index is the decimal numeral,
  without a leading zero, of a number below 4294967295.
\<close>

definition is_index :: "string \<Rightarrow> bool" where
  "is_index key =
     (key \<noteq> [] \<and> list_all is_digit key \<and> (key = ''0'' \<or> hd key \<noteq> CHR ''0'')
      \<and> digits_value 10 key < 4294967295)"

text \<open>A new own property takes its place in the enumeration order.\<close>

fun insert_prop :: "(string \<times> 'a) list \<Rightarrow> string \<Rightarrow> 'a \<Rightarrow> (string \<times> 'a) list" where
  "insert_prop [] key x = [(key, x)]"
| "insert_prop ((k, y) # kvs) key x =
     (if is_index key \<and> (\<not> is_index k \<or> digits_value 10 key < digits_value 10 k)
      then (key, x) # (k, y) # kvs
      else (k, y) # insert_prop kvs key x)"

text \<open>An own property that exists keeps its place and takes the new value.\<close>

fun replace_prop :: "(string \<times> 'a) list \<Rightarrow> string \<Rightarrow> 'a \<Rightarrow> (string \<times> 'a) list" where
  "replace_prop [] key x = []"
| "replace_prop ((k, y) # kvs) key x =
     (if k = key then (k, x) # kvs else (k, y) # replace_prop kvs key x)"

text \<open>
  The definition of an own property, as an object literal and the spread \<open>{...o}\<close>
  perform it for every key.
\<close>

definition define_prop :: "(string \<times> 'a) list \<Rightarrow> string \<Rightarrow> 'a \<Rightarrow> (string \<times> 'a) list" where
  "define_prop kvs key x =
     (if key \<in> set (map fst kvs) then replace_prop kvs key x else insert_prop kvs key x)"

text \<open>
  The assignment \<open>o[key] = x\<close> on an object \<open>o\<close> that the code has created with \<open>{}\<close>
  and written by such assignments only, seen on the own properties of \<open>o\<close>. The key
  \<open>__proto__\<close> is not the name of an own property of \<open>o\<close>, so the assignment reaches the
  setter that \<open>o\<close> inherits from \<open>Object.prototype\<close>, and no own property is created.
\<close>

definition assign_own :: "(string \<times> 'a) list \<Rightarrow> string \<Rightarrow> 'a \<Rightarrow> (string \<times> 'a) list" where
  "assign_own kvs key x = (if key = ''__proto__'' then kvs else define_prop kvs key x)"

text \<open>The object that a loop builds by assigning the entries in order.\<close>

definition assign_all :: "(string \<times> 'a) list \<Rightarrow> (string \<times> 'a) list" where
  "assign_all entries =
     foldl (\<lambda>obj entry. assign_own obj (fst entry) (snd entry)) [] entries"

text \<open>
  The values that the setter of \<open>__proto__\<close> takes for a prototype are the objects and
  \<open>null\<close>; an object is a value whose \<open>typeof\<close> is \<open>object\<close> or \<open>function\<close> and that is not
  \<open>null\<close>.
\<close>

definition is_object :: "jsval \<Rightarrow> bool" where
  "is_object x = ((typeof x = ''object'' \<or> typeof x = ''function'') \<and> x \<noteq> JNull)"

text \<open>
  \<open>validatedObject[key] = x\<close>, on the two property lists of \<open>validatedObject\<close>. The setter
  of \<open>__proto__\<close> replaces the prototype when \<open>x\<close> is an object or \<open>null\<close>, and with it what
  the object inherits; it ignores every other \<open>x\<close>.
\<close>

definition assign_prop ::
  "host \<Rightarrow> (string \<times> jsval) list \<times> (string \<times> jsval) list \<Rightarrow> string \<Rightarrow> jsval
     \<Rightarrow> (string \<times> jsval) list \<times> (string \<times> jsval) list" where
  "assign_prop h validatedObject key x =
     (assign_own (fst validatedObject) key x,
      if key = ''__proto__''
      then (if x = JNull then []
            else if is_object x then inherited_from h x
            else snd validatedObject)
      else snd validatedObject)"

text \<open>\<open>const validatedObject = {}\<close>\<close>

definition empty_object :: "host \<Rightarrow> (string \<times> jsval) list \<times> (string \<times> jsval) list" where
  "empty_object h = ([], inherited_from h (object_prototype h))"

text \<open>The loop over the schema entries, given each field's result.\<close>

fun collect_fields ::
  "host \<Rightarrow> (string \<times> validation_result) list \<Rightarrow> validation_error list
     \<Rightarrow> (string \<times> jsval) list \<times> (string \<times> jsval) list
     \<Rightarrow> validation_error list \<times> (string \<times> jsval) list \<times> (string \<times> jsval) list" where
  "collect_fields h [] errs validatedObject = (errs, validatedObject)"
| "collect_fields h ((key, fieldResult) # rest) errs validatedObject =
     (if \<not> isValid fieldResult
      then collect_fields h rest (errs @ errors fieldResult) validatedObject
      else if data fieldResult \<noteq> JUndefined
      then collect_fields h rest errs (assign_prop h validatedObject key (data fieldResult))
      else collect_fields h rest errs validatedObject)"

text \<open>Strict mode: the loop over the keys of the value.\<close>

fun unexpected_properties ::
  "host \<Rightarrow> string list \<Rightarrow> jsval \<Rightarrow> string \<Rightarrow> string list \<Rightarrow> validation_error list" where
  "unexpected_properties h schemaKeys v p [] = []"
| "unexpected_properties h schemaKeys v p (key # rest) =
     push_if (key \<notin> set schemaKeys)
       (createError (fieldPath p key)
          (''Unexpected property '' @ [CHR 0x22] @ key @ [CHR 0x22]) (get_prop h v key))
     @ unexpected_properties h schemaKeys v p rest"

text \<open>Non-strict mode: the loop that copies the additional properties.\<close>

fun copy_additional ::
  "host \<Rightarrow> string list \<Rightarrow> jsval \<Rightarrow> string list
     \<Rightarrow> (string \<times> jsval) list \<times> (string \<times> jsval) list
     \<Rightarrow> (string \<times> jsval) list \<times> (string \<times> jsval) list" where
  "copy_additional h schemaKeys v [] validatedObject = validatedObject"
| "copy_additional h schemaKeys v (key # rest) validatedObject =
     copy_additional h schemaKeys v rest
       (if key \<notin> set schemaKeys then assign_prop h validatedObject key (get_prop h v key)
        else validatedObject)"

subsection \<open>validate and validateValue\<close>

text \<open>
  \<open>validate\<close> is the method of the base class for the six classes and the arrow function
  of the literal for \<open>any\<close>, \<open>nullable\<close> and \<open>union\<close>; \<open>validateValue\<close> is the core check
  of a class.
\<close>

function (sequential) validate :: "host \<Rightarrow> validator \<Rightarrow> jsval \<Rightarrow> string \<Rightarrow> validation_result"
  and validateValue :: "host \<Rightarrow> validator \<Rightarrow> jsval \<Rightarrow> string \<Rightarrow> validation_result"
where
  "validate h AnyValidator v p = \<lparr>isValid = True, data = v, errors = []\<rparr>"
| "validate h (NullableValidator validator) v p =
     (if v = JNull \<or> v = JUndefined then \<lparr>isValid = True, data = JNull, errors = []\<rparr>
      else validate h validator v p)"
| "validate h (UnionValidator validators msg) v p =
     union_message msg
       (case find isValid (map (\<lambda>validator. validate h validator v p) validators) of
          Some result \<Rightarrow> result
        | None \<Rightarrow> union_failure v p)"
| "validate h validator v p =
     (if options_optional validator \<and> (v = JUndefined \<or> v = JNull)
      then \<lparr>isValid = True, data = JUndefined, errors = []\<rparr>
      else apply_message (options_message validator) (validateValue h validator v p))"
| "validateValue h (StringValidator opts) v p = validateValue_string h opts v p"
| "validateValue h (NumberValidator opts) v p = validateValue_number h opts v p"
| "validateValue h (BooleanValidator opts) v p = validateValue_boolean opts v p"
| "validateValue h (DateValidator opts) v p = validateValue_date h opts v p"
| "validateValue h (ArrayValidator itemValidator opts) v p =
     (case v of
        JArr items \<Rightarrow>
          (let errs0 =
                 (case a_minLength opts of
                    None \<Rightarrow> []
                  | Some m \<Rightarrow>
                      push_if (num_lt (number_of (length items)) m)
                        (createError p
                           (''Array must have at least '' @ num_toString h m @ '' items'') v))
                 @ (case a_maxLength opts of
                      None \<Rightarrow> []
                    | Some m \<Rightarrow>
                        push_if (num_gt (number_of (length items)) m)
                          (createError p
                             (''Array must have at most '' @ num_toString h m @ '' items'') v))
                 @ push_if (a_noEmpty opts \<and> length items = 0)
                     (createError p ''Array cannot be empty'' v);
               itemResults =
                 map (\<lambda>i. validate h itemValidator (items ! i) (itemPath p i)) [0..<length items];
               collected = collect_items itemResults errs0 [];
               validatedItems = snd collected;
               errs =
                 fst collected
                 @ (if a_unique opts \<and> 0 < length validatedItems
                    then map (\<lambda>indexNumber.
                                createError (itemPath p indexNumber) ''Array items must be unique''
                                  (validatedItems ! indexNumber))
                           (scan_duplicates h validatedItems 0 {})
                    else [])
           in if errs \<noteq> [] then createFailure errs else createSuccess (JArr validatedItems))
      | _ \<Rightarrow> createFailure [createError p (''Expected array, received '' @ typeof v) v])"
| "validateValue h (ObjectValidator schema opts) v p =
     (if v = JNull
      then (if ob_allowNull opts then createSuccess JNull
            else createFailure [createError p ''Object cannot be null'' v])
      else if typeof v \<noteq> ''object'' \<or> isArray v
      then createFailure
             [createError p
                (''Expected object, received '' @ (if isArray v then ''array'' else typeof v)) v]
      else
        (let fieldResults =
               map (\<lambda>entry.
                      (fst entry,
                       validate h (snd entry) (get_prop h v (fst entry))
                         (fieldPath p (fst entry))))
                 schema;
             collected = collect_fields h fieldResults [] (empty_object h);
             schemaKeys = map fst schema;
             errs =
               fst collected
               @ (if ob_strict opts then unexpected_properties h schemaKeys v p (keys v) else []);
             validatedObject =
               (if ob_strict opts then snd collected
                else copy_additional h schemaKeys v (keys v) (snd collected))
         in if errs \<noteq> [] then createFailure errs
            else createSuccess (JObj (fst validatedObject) (snd validatedObject))))"
  by pat_completeness auto

termination
proof (relation "measure (\<lambda>a. case a of
                     Inl (h, validator, v, p) \<Rightarrow> 2 * size validator + 1
                   | Inr (h, validator, v, p) \<Rightarrow> 2 * size validator)", goal_cases)
  case 1
  then show ?case by simp
next
  case (2 h validator v p)
  then show ?case by simp
next
  case (3 h validators msg v p x)
  have "size x \<le> size_list size validators"
    using 3 by (induction validators) auto
  then show ?case by simp
next
  case (10 h itemValidator opts v p items i)
  then show ?case by simp
next
  case (11 h schema opts v p entry)
  have "size_prod (\<lambda>_. 0) size entry \<le> size_list (size_prod (\<lambda>_. 0) size) schema"
    using 11(3) by (rule size_list_estimation') simp
  moreover have "size (snd entry) \<le> size_prod (\<lambda>_. 0) size entry"
    by (cases entry) simp
  ultimately show ?case by simp
qed simp_all

section \<open>The factory and the configuration methods\<close>

subsection \<open>Schema\<close>

definition Schema_string :: validator where
  "Schema_string =
     StringValidator
       \<lparr>o_message = None, o_optional = False, s_minLength = None, s_maxLength = None,
        s_pattern = None, s_trim = False, s_email = False, s_url = False, s_uuid = False\<rparr>"

definition Schema_number :: validator where
  "Schema_number =
     NumberValidator
       \<lparr>o_message = None, o_optional = False, n_min = None, n_max = None, n_integer = False,
        n_positive = False, n_negative = False, n_finite = False, n_multipleOf = None\<rparr>"



definition Schema_array :: "validator \<Rightarrow> validator" where
  "Schema_array itemValidator =
     ArrayValidator itemValidator
       \<lparr>o_message = None, o_optional = False, a_minLength = None, a_maxLength = None,
        a_unique = False, a_noEmpty = False\<rparr>"

definition Schema_object :: "(string \<times> validator) list \<Rightarrow> validator" where
  "Schema_object schema =
     ObjectValidator schema
       \<lparr>o_message = None, o_optional = False, ob_strict = False, ob_partial = False,
        ob_allowNull = False\<rparr>"

definition Schema_any :: validator where
  "Schema_any = AnyValidator"

definition Schema_nullable :: "validator \<Rightarrow> validator" where
  "Schema_nullable validator = NullableValidator validator"

definition Schema_union :: "validator list \<Rightarrow> validator" where
  "Schema_union validators = UnionValidator validators None"

subsection \<open>optional and withMessage\<close>

text \<open>
  The classes build a new instance from their options and the new flag. The three
  literals answer \<open>optional()\<close> with a fresh literal of the factory; \<open>nullable\<close> hands
  \<open>withMessage\<close> down to the validator it wraps.
\<close>

fun optional :: "validator \<Rightarrow> validator" where
  "optional (StringValidator opts) = StringValidator (opts\<lparr>o_optional := True\<rparr>)"
| "optional (NumberValidator opts) = NumberValidator (opts\<lparr>o_optional := True\<rparr>)"
| "optional (BooleanValidator opts) = BooleanValidator (opts\<lparr>o_optional := True\<rparr>)"
| "optional (DateValidator opts) = DateValidator (opts\<lparr>o_optional := True\<rparr>)"
| "optional (ArrayValidator itemValidator opts) =
     ArrayValidator itemValidator (opts\<lparr>o_optional := True\<rparr>)"
| "optional (ObjectValidator schema opts) = ObjectValidator schema (opts\<lparr>o_optional := True\<rparr>)"
| "optional AnyValidator = Schema_any"
| "optional (NullableValidator validator) = Schema_nullable validator"
| "optional (UnionValidator validators msg) = Schema_union validators"

fun withMessage :: "string \<Rightarrow> validator \<Rightarrow> validator" where
  "withMessage m (StringValidator opts) = StringValidator (opts\<lparr>o_message := Some m\<rparr>)"
| "withMessage m (NumberValidator opts) = NumberValidator (opts\<lparr>o_message := Some m\<rparr>)"
| "withMessage m (BooleanValidator opts) = BooleanValidator (opts\<lparr>o_message := Some m\<rparr>)"
| "withMessage m (DateValidator opts) = DateValidator (opts\<lparr>o_message := Some m\<rparr>)"
| "withMessage m (ArrayValidator itemValidator opts) =
     ArrayValidator itemValidator (opts\<lparr>o_message := Some m\<rparr>)"
| "withMessage m (ObjectValidator schema opts) =
     ObjectValidator schema (opts\<lparr>o_message := Some m\<rparr>)"
| "withMessage m AnyValidator = Schema_any"
| "withMessage m (NullableValidator validator) = Schema_nullable (withMessage m validator)"
| "withMessage m (UnionValidator validators msg) = UnionValidator validators (Some m)"

subsection \<open>The configuration methods of the classes\<close>

text \<open>
  A call of a configuration method with its arguments; \<open>'r\<close> is what stands for a
  validator in the argument of \<open>extend\<close>. \<open>past()\<close> and \<open>future()\<close> read the clock: the
  reading is the argument of the call.
\<close>

datatype 'r call =
    Optional
  | WithMessage string
  | MinLength jsnum
  | MaxLength jsnum
  | Length jsnum jsnum
  | Pattern "string \<Rightarrow> bool"
  | Trim
  | Email
  | Url
  | Uuid
  | Min jsnum
  | Max jsnum
  | Range jsnum jsnum
  | Integer
  | Positive
  | Negative
  | Finite
  | MultipleOf jsnum
  | Strict
  | Truthy
  | MinDate jsdate
  | MaxDate jsdate
  | RangeDate jsdate jsdate
  | Past jsdate
  | Future jsdate
  | IsoFormat
  | TimestampFormat
  | Unique
  | NoEmpty
  | Partial
  | AllowNull
  | Pick "string list"
  | Omit "string list"
  | Extend "(string \<times> 'r) list"

fun call_string :: "'r call \<Rightarrow> string_options \<Rightarrow> string_options option" where
  "call_string (MinLength n) opts = Some (opts\<lparr>s_minLength := Some n\<rparr>)"
| "call_string (MaxLength n) opts = Some (opts\<lparr>s_maxLength := Some n\<rparr>)"
| "call_string (Length lo hi) opts = Some (opts\<lparr>s_minLength := Some lo, s_maxLength := Some hi\<rparr>)"
| "call_string (Pattern test) opts = Some (opts\<lparr>s_pattern := Some test\<rparr>)"
| "call_string Trim opts = Some (opts\<lparr>s_trim := True\<rparr>)"
| "call_string Email opts = Some (opts\<lparr>s_email := True\<rparr>)"
| "call_string Url opts = Some (opts\<lparr>s_url := True\<rparr>)"
| "call_string Uuid opts = Some (opts\<lparr>s_uuid := True\<rparr>)"
| "call_string Optional opts = Some (opts\<lparr>o_optional := True\<rparr>)"
| "call_string (WithMessage m) opts = Some (opts\<lparr>o_message := Some m\<rparr>)"
| "call_string c opts = None"

fun call_number :: "'r call \<Rightarrow> number_options \<Rightarrow> number_options option" where
  "call_number (Min n) opts = Some (opts\<lparr>n_min := Some n\<rparr>)"
| "call_number (Max n) opts = Some (opts\<lparr>n_max := Some n\<rparr>)"
| "call_number (Range lo hi) opts = Some (opts\<lparr>n_min := Some lo, n_max := Some hi\<rparr>)"
| "call_number Integer opts = Some (opts\<lparr>n_integer := True\<rparr>)"
| "call_number Positive opts = Some (opts\<lparr>n_positive := True\<rparr>)"
| "call_number Negative opts = Some (opts\<lparr>n_negative := True\<rparr>)"
| "call_number Finite opts = Some (opts\<lparr>n_finite := True\<rparr>)"
| "call_number (MultipleOf n) opts = Some (opts\<lparr>n_multipleOf := Some n\<rparr>)"
| "call_number Optional opts = Some (opts\<lparr>o_optional := True\<rparr>)"
| "call_number (WithMessage m) opts = Some (opts\<lparr>o_message := Some m\<rparr>)"
| "call_number c opts = None"

fun call_boolean :: "'r call \<Rightarrow> boolean_options \<Rightarrow> boolean_options option" where
  "call_boolean Strict opts = Some (opts\<lparr>b_strict := True\<rparr>)"
| "call_boolean Truthy opts = Some (opts\<lparr>b_truthy := True\<rparr>)"
| "call_boolean Optional opts = Some (opts\<lparr>o_optional := True\<rparr>)"
| "call_boolean (WithMessage m) opts = Some (opts\<lparr>o_message := Some m\<rparr>)"
| "call_boolean c opts = None"

fun call_date :: "'r call \<Rightarrow> date_options \<Rightarrow> date_options option" where
  "call_date (MinDate d) opts = Some (opts\<lparr>d_min := Some d\<rparr>)"
| "call_date (MaxDate d) opts = Some (opts\<lparr>d_max := Some d\<rparr>)"
| "call_date (RangeDate lo hi) opts = Some (opts\<lparr>d_min := Some lo, d_max := Some hi\<rparr>)"
| "call_date (Past now) opts = Some (opts\<lparr>d_max := Some now\<rparr>)"
| "call_date (Future now) opts = Some (opts\<lparr>d_min := Some now\<rparr>)"
| "call_date IsoFormat opts = Some (opts\<lparr>d_format := Some Iso\<rparr>)"
| "call_date TimestampFormat opts = Some (opts\<lparr>d_format := Some Timestamp\<rparr>)"
| "call_date Optional opts = Some (opts\<lparr>o_optional := True\<rparr>)"
| "call_date (WithMessage m) opts = Some (opts\<lparr>o_message := Some m\<rparr>)"
| "call_date c opts = None"

fun call_array :: "'r call \<Rightarrow> array_options \<Rightarrow> array_options option" where
  "call_array (MinLength n) opts = Some (opts\<lparr>a_minLength := Some n\<rparr>)"
| "call_array (MaxLength n) opts = Some (opts\<lparr>a_maxLength := Some n\<rparr>)"
| "call_array (Length lo hi) opts = Some (opts\<lparr>a_minLength := Some lo, a_maxLength := Some hi\<rparr>)"
| "call_array Unique opts = Some (opts\<lparr>a_unique := True\<rparr>)"
| "call_array NoEmpty opts = Some (opts\<lparr>a_noEmpty := True\<rparr>)"
| "call_array Optional opts = Some (opts\<lparr>o_optional := True\<rparr>)"
| "call_array (WithMessage m) opts = Some (opts\<lparr>o_message := Some m\<rparr>)"
| "call_array c opts = None"

text \<open>
  The methods of the object validator that keep the schema: they only set an option.
  \<open>partial()\<close> sets its flag as well, next to the schema it rebuilds.
\<close>

fun call_object :: "'r call \<Rightarrow> object_options \<Rightarrow> object_options option" where
  "call_object Strict opts = Some (opts\<lparr>ob_strict := True\<rparr>)"
| "call_object AllowNull opts = Some (opts\<lparr>ob_allowNull := True\<rparr>)"
| "call_object Partial opts = Some (opts\<lparr>ob_partial := True\<rparr>)"
| "call_object (Pick ks) opts = Some opts"
| "call_object (Omit ks) opts = Some opts"
| "call_object (Extend extension) opts = Some opts"
| "call_object Optional opts = Some (opts\<lparr>o_optional := True\<rparr>)"
| "call_object (WithMessage m) opts = Some (opts\<lparr>o_message := Some m\<rparr>)"
| "call_object c opts = None"

text \<open>
  The schema that a method of the object validator hands to the new instance. A schema
  is the list of the own enumerable properties of the schema object. \<open>pick\<close>, \<open>omit\<close>
  and \<open>partial\<close> fill a new object by assignments, \<open>extend\<close> spreads the schema and the
  extension into an object literal. \<open>pick\<close> skips a key that names no field; its type
  rules out the names that a schema object only inherits.
\<close>

definition pick_schema :: "string list \<Rightarrow> (string \<times> 'r) list \<Rightarrow> (string \<times> 'r) list" where
  "pick_schema ks schema =
     foldl (\<lambda>pickedSchema key.
              case map_of schema key of
                None \<Rightarrow> pickedSchema
              | Some validator \<Rightarrow> assign_own pickedSchema key validator)
       [] ks"

definition omit_schema :: "string list \<Rightarrow> (string \<times> 'r) list \<Rightarrow> (string \<times> 'r) list" where
  "omit_schema ks schema = assign_all (filter (\<lambda>entry. fst entry \<notin> set ks) schema)"

definition extend_schema :: "(string \<times> 'r) list \<Rightarrow> (string \<times> 'r) list \<Rightarrow> (string \<times> 'r) list" where
  "extend_schema extension schema =
     foldl (\<lambda>extendedSchema entry. define_prop extendedSchema (fst entry) (snd entry))
       schema extension"

fun call_schema ::
  "validator call \<Rightarrow> (string \<times> validator) list \<Rightarrow> (string \<times> validator) list" where
  "call_schema Partial schema =
     assign_all (map (\<lambda>entry. (fst entry, optional (snd entry))) schema)"
| "call_schema (Pick ks) schema = pick_schema ks schema"
| "call_schema (Omit ks) schema = omit_schema ks schema"
| "call_schema (Extend extension) schema = extend_schema extension schema"
| "call_schema c schema = schema"

text \<open>
  A method call on a validator: the instance it returns, or \<open>None\<close> when the receiver
  has no such method.
\<close>

fun configure :: "validator call \<Rightarrow> validator \<Rightarrow> validator option" where
  "configure c (StringValidator opts) = map_option StringValidator (call_string c opts)"
| "configure c (NumberValidator opts) = map_option NumberValidator (call_number c opts)"
| "configure c (BooleanValidator opts) = map_option BooleanValidator (call_boolean c opts)"
| "configure c (DateValidator opts) = map_option DateValidator (call_date c opts)"
| "configure c (ArrayValidator itemValidator opts) =
     map_option (ArrayValidator itemValidator) (call_array c opts)"
| "configure c (ObjectValidator schema opts) =
     map_option (ObjectValidator (call_schema c schema)) (call_object c opts)"
| "configure Optional validator = Some (optional validator)"
| "configure (WithMessage m) validator = Some (withMessage m validator)"
| "configure c validator = None"

section \<open>The two shapes of a core result\<close>


section \<open>Instances on the heap\<close>

text \<open>
  In the source a validator is an object, and an array, object, nullable or union
  validator holds references to its children, which other validators may share. The
  heap is the list of the objects allocated so far, an address is an index into it, and
  \<open>new\<close> appends. A configuration method reads its receiver and allocates. The options
  of an instance and the key list of a schema are assigned in the constructor and nowhere
  else, so they are part of the object here and the references are those to validators.
\<close>

datatype obj =
    OString string_options
  | ONumber number_options
  | OBoolean boolean_options
  | ODate date_options
  | OArray nat array_options
  | OObject "(string \<times> nat) list" object_options
  | OAny
  | ONullable nat
  | OUnion "nat list" "string option"

type_synonym heap = "obj list"

definition alloc :: "obj \<Rightarrow> heap \<Rightarrow> nat \<times> heap" where
  "alloc ob hp = (length hp, hp @ [ob])"

subsection \<open>The validator an address denotes\<close>

text \<open>
  An object is constructed after its children, so a reference points to a lower
  address; following the references from an address gives the validator of the previous
  sections. \<open>None\<close> marks a reference that points nowhere, which no constructor produces.
\<close>

definition lookup :: "validator option list \<Rightarrow> nat \<Rightarrow> validator option" where
  "lookup vs c = (if c < length vs then vs ! c else None)"

fun resolve_list :: "validator option list \<Rightarrow> nat list \<Rightarrow> validator list option" where
  "resolve_list vs [] = Some []"
| "resolve_list vs (c # cs) =
     (case lookup vs c of
        None \<Rightarrow> None
      | Some v \<Rightarrow> map_option (\<lambda>rest. v # rest) (resolve_list vs cs))"

fun resolve_fields ::
  "validator option list \<Rightarrow> (string \<times> nat) list \<Rightarrow> (string \<times> validator) list option" where
  "resolve_fields vs [] = Some []"
| "resolve_fields vs ((key, c) # flds) =
     (case lookup vs c of
        None \<Rightarrow> None
      | Some v \<Rightarrow> map_option (\<lambda>rest. (key, v) # rest) (resolve_fields vs flds))"

fun resolve_obj :: "validator option list \<Rightarrow> obj \<Rightarrow> validator option" where
  "resolve_obj vs (OString opts) = Some (StringValidator opts)"
| "resolve_obj vs (ONumber opts) = Some (NumberValidator opts)"
| "resolve_obj vs (OBoolean opts) = Some (BooleanValidator opts)"
| "resolve_obj vs (ODate opts) = Some (DateValidator opts)"
| "resolve_obj vs (OArray c opts) =
     map_option (\<lambda>itemValidator. ArrayValidator itemValidator opts) (lookup vs c)"
| "resolve_obj vs (OObject flds opts) =
     map_option (\<lambda>schema. ObjectValidator schema opts) (resolve_fields vs flds)"
| "resolve_obj vs OAny = Some AnyValidator"
| "resolve_obj vs (ONullable c) = map_option NullableValidator (lookup vs c)"
| "resolve_obj vs (OUnion cs msg) =
     map_option (\<lambda>validators. UnionValidator validators msg) (resolve_list vs cs)"

definition resolve_all :: "heap \<Rightarrow> validator option list" where
  "resolve_all hp = foldl (\<lambda>vs ob. vs @ [resolve_obj vs ob]) [] hp"

definition instance_at :: "heap \<Rightarrow> nat \<Rightarrow> validator option" where
  "instance_at hp a = lookup (resolve_all hp) a"

definition validate_at ::
  "host \<Rightarrow> heap \<Rightarrow> nat \<Rightarrow> jsval \<Rightarrow> string \<Rightarrow> validation_result option" where
  "validate_at h hp a v p = map_option (\<lambda>validator. validate h validator v p) (instance_at hp a)"

subsection \<open>The configuration methods as allocations\<close>

text \<open>The object that \<open>optional()\<close> constructs from its receiver.\<close>

fun optional_obj :: "obj \<Rightarrow> obj" where
  "optional_obj (OString opts) = OString (opts\<lparr>o_optional := True\<rparr>)"
| "optional_obj (ONumber opts) = ONumber (opts\<lparr>o_optional := True\<rparr>)"
| "optional_obj (OBoolean opts) = OBoolean (opts\<lparr>o_optional := True\<rparr>)"
| "optional_obj (ODate opts) = ODate (opts\<lparr>o_optional := True\<rparr>)"
| "optional_obj (OArray c opts) = OArray c (opts\<lparr>o_optional := True\<rparr>)"
| "optional_obj (OObject flds opts) = OObject flds (opts\<lparr>o_optional := True\<rparr>)"
| "optional_obj OAny = OAny"
| "optional_obj (ONullable c) = ONullable c"
| "optional_obj (OUnion cs msg) = OUnion cs None"

text \<open>
  The object that \<open>withMessage(m)\<close> constructs from a receiver other than a nullable
  literal.
\<close>

fun withMessage_obj :: "string \<Rightarrow> obj \<Rightarrow> obj" where
  "withMessage_obj m (OString opts) = OString (opts\<lparr>o_message := Some m\<rparr>)"
| "withMessage_obj m (ONumber opts) = ONumber (opts\<lparr>o_message := Some m\<rparr>)"
| "withMessage_obj m (OBoolean opts) = OBoolean (opts\<lparr>o_message := Some m\<rparr>)"
| "withMessage_obj m (ODate opts) = ODate (opts\<lparr>o_message := Some m\<rparr>)"
| "withMessage_obj m (OArray c opts) = OArray c (opts\<lparr>o_message := Some m\<rparr>)"
| "withMessage_obj m (OObject flds opts) = OObject flds (opts\<lparr>o_message := Some m\<rparr>)"
| "withMessage_obj m OAny = OAny"
| "withMessage_obj m (ONullable c) = ONullable c"
| "withMessage_obj m (OUnion cs msg) = OUnion cs (Some m)"

text \<open>
  \<open>withMessage\<close> at an address. The nullable literal first calls \<open>withMessage\<close> on the
  validator it wraps and then allocates a literal around the result.
\<close>

function withMessage_at :: "string \<Rightarrow> nat \<Rightarrow> heap \<Rightarrow> (nat \<times> heap) option" where
  "withMessage_at m a hp =
     (if a < length hp
      then (case hp ! a of
              ONullable c \<Rightarrow>
                (if c < a
                 then (case withMessage_at m c hp of
                         None \<Rightarrow> None
                       | Some (c', hp') \<Rightarrow> Some (alloc (ONullable c') hp'))
                 else None)
            | ob \<Rightarrow> Some (alloc (withMessage_obj m ob) hp))
      else None)"
  by pat_completeness auto
termination
  by (relation "measure (\<lambda>(m, a, hp). a)") auto

declare withMessage_at.simps [simp del]

text \<open>
  \<open>partial()\<close>: the loop that calls \<open>optional()\<close> on the validator of every field. It
  gives the entries in the order in which the loop assigns them to the new schema, and
  the heap after the calls.
\<close>

fun partial_fields :: "(string \<times> nat) list \<Rightarrow> heap \<Rightarrow> ((string \<times> nat) list \<times> heap) option" where
  "partial_fields [] hp = Some ([], hp)"
| "partial_fields ((key, c) # rest) hp =
     (if c < length hp
      then (case alloc (optional_obj (hp ! c)) hp of
              (c', hp') \<Rightarrow>
                (case partial_fields rest hp' of
                   None \<Rightarrow> None
                 | Some (flds, hp'') \<Rightarrow> Some ((key, c') # flds, hp'')))
      else None)"

text \<open>
  A method call on the instance at an address: the address of the instance it returns
  and the heap after the call, or \<open>None\<close> when the receiver has no such method or the
  address is not allocated.
\<close>

definition configure_object ::
  "nat call \<Rightarrow> (string \<times> nat) list \<Rightarrow> object_options \<Rightarrow> heap \<Rightarrow> (nat \<times> heap) option" where
  "configure_object c flds opts hp =
     (case call_object c opts of
        None \<Rightarrow> None
      | Some opts' \<Rightarrow>
          (case c of
             Partial \<Rightarrow>
               (case partial_fields flds hp of
                  None \<Rightarrow> None
                | Some (entries, hp') \<Rightarrow> Some (alloc (OObject (assign_all entries) opts') hp'))
           | Pick ks \<Rightarrow> Some (alloc (OObject (pick_schema ks flds) opts') hp)
           | Omit ks \<Rightarrow> Some (alloc (OObject (omit_schema ks flds) opts') hp)
           | Extend extension \<Rightarrow> Some (alloc (OObject (extend_schema extension flds) opts') hp)
           | _ \<Rightarrow> Some (alloc (OObject flds opts') hp)))"

definition configure_at :: "nat call \<Rightarrow> nat \<Rightarrow> heap \<Rightarrow> (nat \<times> heap) option" where
  "configure_at c a hp =
     (if a < length hp
      then (case hp ! a of
              OString opts \<Rightarrow> map_option (\<lambda>opts'. alloc (OString opts') hp) (call_string c opts)
            | ONumber opts \<Rightarrow> map_option (\<lambda>opts'. alloc (ONumber opts') hp) (call_number c opts)
            | OBoolean opts \<Rightarrow> map_option (\<lambda>opts'. alloc (OBoolean opts') hp) (call_boolean c opts)
            | ODate opts \<Rightarrow> map_option (\<lambda>opts'. alloc (ODate opts') hp) (call_date c opts)
            | OArray item opts \<Rightarrow>
                map_option (\<lambda>opts'. alloc (OArray item opts') hp) (call_array c opts)
            | OObject flds opts \<Rightarrow> configure_object c flds opts hp
            | ob \<Rightarrow>
                (case c of
                   Optional \<Rightarrow> Some (alloc (optional_obj ob) hp)
                 | WithMessage m \<Rightarrow> withMessage_at m a hp
                 | _ \<Rightarrow> None))
      else None)"

section \<open>A platform for closed examples\<close>

text \<open>
  The examples below do not reach the built-ins of the platform, or hold whatever the
  built-ins answer; to state them as closed terms they name this platform, whose date
  and URL parsers reject every string. Its \<open>Object.prototype\<close> holds the methods of the
  language standard. Through a prototype an object finds the properties of the
  prototype, and under the key \<open>__proto__\<close>, when the prototype does not have it as an
  enumerable property of its own, the prototype itself.
\<close>

definition Object_prototype :: jsval where
  "Object_prototype =
     JObj []
       [(''constructor'', JFunction 0), (''hasOwnProperty'', JFunction 1),
        (''isPrototypeOf'', JFunction 2), (''propertyIsEnumerable'', JFunction 3),
        (''toLocaleString'', JFunction 4), (''toString'', JFunction 5),
        (''valueOf'', JFunction 6), (''__proto__'', JNull)]"

definition properties_through :: "jsval \<Rightarrow> (string \<times> jsval) list" where
  "properties_through x =
     (case x of
        JObj kvs inherited \<Rightarrow>
          kvs @ map (\<lambda>entry. if fst entry = ''__proto__'' then (fst entry, x) else entry) inherited
      | _ \<Rightarrow> [])"

definition host0 :: host where
  "host0 =
     \<lparr>date_parse = (\<lambda>s. None), date_toISOString = (\<lambda>t. []), num_toString = (\<lambda>n. []),
      url_parse = (\<lambda>s. None), json_stringify = (\<lambda>v. []),
      object_prototype = Object_prototype,
      date_prototype = JObj [] ((''getTime'', JFunction 7) # properties_through Object_prototype),
      inherited_from = properties_through\<rparr>"

text \<open>An object as \<open>JSON.parse\<close> gives it on this platform.\<close>

definition plain :: "(string \<times> jsval) list \<Rightarrow> jsval" where
  "plain kvs = JObj kvs (properties_through Object_prototype)"

section \<open>Properties\<close>

subsection \<open>Shared facts\<close>

lemma union_message_valid: "isValid r \<Longrightarrow> union_message msg r = r"
  by (simp add: union_message_def split: option.split)










text \<open>The own properties of an object after a definition, an assignment and the loops.\<close>

lemma collect_fields_errors:
  "fst (collect_fields h frs errs obj)
     = errs @ concat (map (\<lambda>fr. if isValid (snd fr) then [] else errors (snd fr)) frs)"
  by (induction h frs errs obj rule: collect_fields.induct) simp_all

lemma map_of_insert_prop:
  "key \<notin> set (map fst kvs) \<Longrightarrow> map_of (insert_prop kvs key x) = (map_of kvs)(key \<mapsto> x)"
  by (induction kvs key x rule: insert_prop.induct) (auto simp: fun_eq_iff)

lemma map_of_replace_prop:
  "key \<in> set (map fst kvs) \<Longrightarrow> map_of (replace_prop kvs key x) = (map_of kvs)(key \<mapsto> x)"
  by (induction kvs key x rule: replace_prop.induct) (force simp: fun_eq_iff)+

lemma map_of_define_prop: "map_of (define_prop kvs key x) = (map_of kvs)(key \<mapsto> x)"
  by (simp add: define_prop_def map_of_insert_prop map_of_replace_prop del: set_map)

lemma map_of_assign_own:
  "map_of (assign_own kvs key x)
     = (if key = ''__proto__'' then map_of kvs else (map_of kvs)(key \<mapsto> x))"
  by (simp add: assign_own_def map_of_define_prop)

lemma map_of_assign_prop:
  "map_of (fst (assign_prop h obj key x))
     = (if key = ''__proto__'' then map_of (fst obj) else (map_of (fst obj))(key \<mapsto> x))"
  by (simp add: assign_prop_def map_of_assign_own)

lemma map_of_copy_additional:
  "map_of (fst (copy_additional h schemaKeys v ks obj)) key
     = (if key \<in> set ks \<and> key \<notin> set schemaKeys \<and> key \<noteq> ''__proto__''
        then Some (get_prop h v key)
        else map_of (fst obj) key)"
  by (induction ks arbitrary: obj) (auto simp: map_of_assign_prop)

lemma map_of_collect_fields_other:
  "key \<notin> fst ` set frs \<or> key = ''__proto__''
   \<Longrightarrow> map_of (fst (snd (collect_fields h frs errs obj))) key = map_of (fst obj) key"
  by (induction h frs errs obj rule: collect_fields.induct)
     (auto simp: map_of_assign_prop)

subsection \<open>Union\<close>

text \<open>
  Claim C4. \<open>union(list).validate(x, p)\<close> returns the result of the first member, in
  declaration order, that succeeds, unchanged; when no member succeeds, and so whenever
  the list is empty, it returns a failure with the single error at path \<open>p\<close> that the
  value does not match any of the union types, and a message configured with
  \<open>withMessage\<close> takes the place of that text.
\<close>

theorem union_first_success:
  "(i < length validators \<and> isValid (validate H (validators ! i) v p)
      \<and> (\<forall>j<i. \<not> isValid (validate H (validators ! j) v p))
    \<longrightarrow> validate H (Schema_union validators) v p = validate H (validators ! i) v p
        \<and> validate H (withMessage m (Schema_union validators)) v p
            = validate H (validators ! i) v p)
   \<and> ((\<forall>member \<in> set validators. \<not> isValid (validate H member v p))
      \<longrightarrow> validate H (Schema_union validators) v p
            = createFailure
                [createError p ''Value does not match any of the union types'' v]
          \<and> validate H (withMessage m (Schema_union validators)) v p
              = createFailure [createError p m v])
   \<and> validate H (Schema_union []) v p
       = createFailure [createError p ''Value does not match any of the union types'' v]
   \<and> validate H (withMessage m (Schema_union [])) v p = createFailure [createError p m v]"
proof -
  let ?results = "map (\<lambda>validator. validate H validator v p) validators"
  have first: "find isValid ?results = Some (validate H (validators ! i) v p)"
    if "i < length validators" "isValid (validate H (validators ! i) v p)"
       "\<forall>j<i. \<not> isValid (validate H (validators ! j) v p)"
    using that by (auto simp: find_Some_iff intro!: exI[of _ i])
  have none: "find isValid ?results = None"
    if "\<forall>member \<in> set validators. \<not> isValid (validate H member v p)"
    using that by (simp add: find_None_iff)
  have failure: "union_message None (union_failure v p)
                   = createFailure
                       [createError p ''Value does not match any of the union types'' v]"
    "union_message (Some m) (union_failure v p) = createFailure [createError p m v]"
    by (simp_all add: union_message_def union_failure_def createFailure_def createError_def
          replace_messages_def)
  show ?thesis
    using first none failure
    by (simp add: Schema_union_def union_message_valid)
qed

text \<open>
  The union of \<open>string().minLength(10)\<close> and \<open>string().minLength(3)\<close> accepts \<open>"hello"\<close>
  through its second member.
\<close>

theorem union_first_success_witness:
  "validate host0
     (Schema_union
        [the (configure (MinLength (Fin 10)) Schema_string),
         the (configure (MinLength (Fin 3)) Schema_string)])
     (JStr ''hello'') ''root''
   = createSuccess (JStr ''hello'')
   \<and> validate host0 (withMessage ''no match'' (Schema_union [Schema_string])) (JNum (Fin 1))
       ''root''
     = createFailure [createError ''root'' ''no match'' (JNum (Fin 1))]"
proof -
  let ?long = "the (configure (MinLength (Fin 10)) Schema_string)"
  let ?short = "the (configure (MinLength (Fin 3)) Schema_string)"
  have long: "\<not> isValid (validate host0 ?long (JStr ''hello'') ''root'')"
    by (simp add: Schema_string_def validateValue_string_def apply_message_def push_if_def
          number_of_def createFailure_def)
  have short: "validate host0 ?short (JStr ''hello'') ''root'' = createSuccess (JStr ''hello'')"
    by (simp add: Schema_string_def validateValue_string_def apply_message_def push_if_def
          number_of_def createSuccess_def)
  have number: "\<not> isValid (validate host0 Schema_string (JNum (Fin 1)) ''root'')"
    by (simp add: Schema_string_def validateValue_string_def apply_message_def
          createFailure_def)
  from long short
  have "validate host0 (Schema_union [?long, ?short]) (JStr ''hello'') ''root''
          = createSuccess (JStr ''hello'')"
    using union_first_success [of 1 "[?long, ?short]" host0 "JStr ''hello''" "''root''"]
    by (simp add: createSuccess_def)
  moreover from number
  have "validate host0 (withMessage ''no match'' (Schema_union [Schema_string]))
          (JNum (Fin 1)) ''root''
        = createFailure [createError ''root'' ''no match'' (JNum (Fin 1))]"
    using union_first_success
            [of 0 "[Schema_string]" host0 "JNum (Fin 1)" "''root''" "''no match''"]
    by simp
  ultimately show ?thesis by simp
qed

subsection \<open>Scalar validators and values of the wrong kind\<close>








subsection \<open>Implausible calendar dates\<close>



subsection \<open>Null for an object validator that is optional and allows null\<close>

text \<open>
  Claim C10. An object validator configured with both \<open>allowNull()\<close> and \<open>optional()\<close>, in
  either order, answers \<open>null\<close> with a success that has no data: the check for the
  absence sentinels in the base class's \<open>validate\<close> runs before the core check. The same
  validator without the optional flag answers \<open>null\<close> with the data \<open>null\<close>.
\<close>

theorem allowNull_optional_null:
  "map_option (\<lambda>ov. validate H (optional ov) JNull p)
     (configure AllowNull (ObjectValidator schema opts))
   = Some \<lparr>isValid = True, data = JUndefined, errors = []\<rparr>
   \<and> map_option (\<lambda>ov. validate H ov JNull p)
       (configure AllowNull (optional (ObjectValidator schema opts)))
     = Some \<lparr>isValid = True, data = JUndefined, errors = []\<rparr>
   \<and> map_option (\<lambda>ov. validate H ov JNull p)
       (configure AllowNull (ObjectValidator schema (opts\<lparr>o_optional := False\<rparr>)))
     = Some \<lparr>isValid = True, data = JNull, errors = []\<rparr>"
  by (simp add: createSuccess_def apply_message_def split: option.split)

subsection \<open>Object validator: additional properties\<close>

lemma unexpected_properties_entries:
  "distinct (map fst kvs) \<Longrightarrow> set ks \<subseteq> set kvs
   \<Longrightarrow> unexpected_properties h schemaKeys (JObj kvs inherited) p (map fst ks)
       = map (\<lambda>entry. \<lparr>path = fieldPath p (fst entry),
                        message = ''Unexpected property '' @ [CHR 0x22] @ fst entry @ [CHR 0x22],
                        val = snd entry\<rparr>)
           (filter (\<lambda>entry. fst entry \<notin> set schemaKeys) ks)"
  by (induction ks) (auto simp: push_if_def createError_def)

text \<open>
  Claim C6, as the code has it. For an input object with the own enumerable entries
  \<open>kvs\<close>: in strict mode the errors of the object validator are the errors of the schema
  fields followed by one unexpected-property error for every entry whose key the schema
  does not declare, at the path of that key and with the value of that entry; so
  \<open>object({a: string()}).strict()\<close> fails on \<open>{a: "x", b: 1}\<close> with exactly one error, at
  path \<open>b\<close>. Without strict mode the errors are those of the schema fields alone, and
  when there are none the result is a success whose data is an object that has every
  such entry with its value as an own property, except an entry with the key
  \<open>__proto__\<close>: the output has no own property of that name.
\<close>

theorem strict_unexpected_properties:
  "(distinct (map fst kvs)
    \<longrightarrow> (let field_errors =
               concat (map (\<lambda>entry.
                              let r = validate H (snd entry)
                                        (get_prop H (JObj kvs inherited) (fst entry))
                                        (fieldPath p (fst entry))
                              in if isValid r then [] else errors r) schema);
             additional = filter (\<lambda>entry. fst entry \<notin> set (map fst schema)) kvs;
             result = validateValue H (ObjectValidator schema opts) (JObj kvs inherited) p
         in (ob_strict opts
             \<longrightarrow> errors result
                 = field_errors
                   @ map (\<lambda>entry.
                            \<lparr>path = fieldPath p (fst entry),
                             message = ''Unexpected property '' @ [CHR 0x22] @ fst entry @ [CHR 0x22],
                             val = snd entry\<rparr>) additional)
            \<and> (\<not> ob_strict opts
               \<longrightarrow> errors result = field_errors
                   \<and> (field_errors = []
                      \<longrightarrow> (\<exists>d inherited'.
                             result = \<lparr>isValid = True, data = JObj d inherited', errors = []\<rparr>
                             \<and> (\<forall>entry \<in> set additional.
                                    fst entry \<noteq> ''__proto__''
                                    \<longrightarrow> map_of d (fst entry) = Some (snd entry))
                             \<and> map_of d ''__proto__'' = None)))))
   \<and> validate H (the (configure Strict (Schema_object [(''a'', Schema_string)])))
       (JObj [(''a'', JStr ''x''), (''b'', JNum (Fin 1))] inherited) ''root''
     = \<lparr>isValid = False, data = JUndefined,
        errors = [\<lparr>path = ''b'',
                   message = ''Unexpected property '' @ [CHR 0x22] @ ''b'' @ [CHR 0x22],
                   val = JNum (Fin 1)\<rparr>]\<rparr>"
proof -
  let ?v = "JObj kvs inherited"
  let ?fr = "map (\<lambda>entry. (fst entry,
                     validate H (snd entry) (get_prop H ?v (fst entry))
                       (fieldPath p (fst entry)))) schema"
  let ?fe = "concat (map (\<lambda>entry.
                              let r = validate H (snd entry) (get_prop H ?v (fst entry))
                                        (fieldPath p (fst entry))
                              in if isValid r then [] else errors r) schema)"
  let ?additional = "filter (\<lambda>entry. fst entry \<notin> set (map fst schema)) kvs"
  let ?unexpected =
    "map (\<lambda>entry. \<lparr>path = fieldPath p (fst entry),
                    message = ''Unexpected property '' @ [CHR 0x22] @ fst entry @ [CHR 0x22],
                    val = snd entry\<rparr>) ?additional"
  let ?result = "validateValue H (ObjectValidator schema opts) ?v p"
  have fe: "fst (collect_fields H ?fr [] (empty_object H)) = ?fe"
    by (simp add: collect_fields_errors comp_def Let_def cong: if_cong)
  have strict: "errors ?result = ?fe @ ?unexpected"
    if "distinct (map fst kvs)" "ob_strict opts"
  proof -
    have "unexpected_properties H (map fst schema) ?v p (map fst kvs) = ?unexpected"
      using that(1) by (rule unexpected_properties_entries) simp
    with that(2) fe show ?thesis
      by (simp add: Let_def createFailure_def createSuccess_def del: get_prop.simps)
  qed
  have lax: "errors ?result = ?fe
             \<and> (?fe = []
                \<longrightarrow> (\<exists>d inherited'.
                       ?result = \<lparr>isValid = True, data = JObj d inherited', errors = []\<rparr>
                       \<and> (\<forall>entry \<in> set ?additional.
                              fst entry \<noteq> ''__proto__''
                              \<longrightarrow> map_of d (fst entry) = Some (snd entry))
                       \<and> map_of d ''__proto__'' = None))"
    if "distinct (map fst kvs)" "\<not> ob_strict opts"
  proof -
    let ?obj = "copy_additional H (map fst schema) ?v (map fst kvs)
                  (snd (collect_fields H ?fr [] (empty_object H)))"
    have copied: "map_of (fst ?obj) (fst entry) = Some (snd entry)"
      if "entry \<in> set ?additional" "fst entry \<noteq> ''__proto__''" for entry
    proof -
      from that have "fst entry \<in> set (map fst kvs)" "fst entry \<notin> set (map fst schema)"
        by auto
      moreover from that have "entry \<in> set kvs"
        by simp
      then have "map_of kvs (fst entry) = Some (snd entry)"
        by (simp add: map_of_eq_Some_iff [OF \<open>distinct (map fst kvs)\<close>])
      then have "get_prop H ?v (fst entry) = snd entry"
        by simp
      ultimately show ?thesis
        using that(2) by (simp add: map_of_copy_additional del: get_prop.simps)
    qed
    have proto: "map_of (fst ?obj) ''__proto__'' = None"
      by (simp add: map_of_copy_additional map_of_collect_fields_other empty_object_def
            del: get_prop.simps)
    from that(2) fe have "errors ?result = ?fe"
      by (simp add: Let_def createFailure_def createSuccess_def del: get_prop.simps)
    moreover from that(2) fe
    have "?result = \<lparr>isValid = True, data = JObj (fst ?obj) (snd ?obj), errors = []\<rparr>"
      if "?fe = []"
      using that by (simp add: Let_def createSuccess_def del: get_prop.simps)
    ultimately show ?thesis using copied proto by blast
  qed
  have a: "validate H Schema_string (JStr ''x'') ''a'' = createSuccess (JStr ''x'')"
    by (simp add: Schema_string_def validateValue_string_def apply_message_def
          createSuccess_def)
  have example:
    "validate H (the (configure Strict (Schema_object [(''a'', Schema_string)])))
       (JObj [(''a'', JStr ''x''), (''b'', JNum (Fin 1))] inherited) ''root''
     = \<lparr>isValid = False, data = JUndefined,
        errors = [\<lparr>path = ''b'',
                   message = ''Unexpected property '' @ [CHR 0x22] @ ''b'' @ [CHR 0x22],
                   val = JNum (Fin 1)\<rparr>]\<rparr>"
    by (simp add: Schema_object_def a fieldPath_def push_if_def apply_message_def
          createSuccess_def createFailure_def createError_def empty_object_def assign_prop_def
          assign_own_def define_prop_def)
  show ?thesis
    unfolding Let_def
    using strict [unfolded Let_def] lax [unfolded Let_def] example by blast
qed

text \<open>
  The object \<open>{a: "x", b: 1, c: null}\<close> at the path \<open>user\<close>: two errors in strict mode,
  at \<open>user.b\<close> and \<open>user.c\<close>; without strict mode a success whose data has the three
  properties.
\<close>

theorem strict_unexpected_properties_witness:
  "distinct (map fst [(''a'', JStr ''x''), (''b'', JNum (Fin 1)), (''c'', JNull)])
   \<and> errors (validateValue host0
               (the (configure Strict (Schema_object [(''a'', Schema_string)])))
               (plain [(''a'', JStr ''x''), (''b'', JNum (Fin 1)), (''c'', JNull)]) ''user'')
     = [\<lparr>path = ''user.b'',
         message = ''Unexpected property '' @ [CHR 0x22] @ ''b'' @ [CHR 0x22],
         val = JNum (Fin 1)\<rparr>,
        \<lparr>path = ''user.c'',
         message = ''Unexpected property '' @ [CHR 0x22] @ ''c'' @ [CHR 0x22],
         val = JNull\<rparr>]
   \<and> (\<exists>d inherited'.
         validateValue host0 (Schema_object [(''a'', Schema_string)])
           (plain [(''a'', JStr ''x''), (''b'', JNum (Fin 1)), (''c'', JNull)]) ''user''
         = \<lparr>isValid = True, data = JObj d inherited', errors = []\<rparr>
         \<and> map_of d ''b'' = Some (JNum (Fin 1)) \<and> map_of d ''c'' = Some JNull)"
proof -
  let ?kvs = "[(''a'', JStr ''x''), (''b'', JNum (Fin 1)), (''c'', JNull)]"
  let ?schema = "[(''a'', Schema_string)]"
  have a: "validate host0 Schema_string (JStr ''x'') ''user.a'' = createSuccess (JStr ''x'')"
    by (simp add: Schema_string_def validateValue_string_def apply_message_def
          createSuccess_def)
  have strict: "the (configure Strict (Schema_object ?schema))
                  = ObjectValidator ?schema
                      \<lparr>o_message = None, o_optional = False, ob_strict = True,
                       ob_partial = False, ob_allowNull = False\<rparr>"
    by (simp add: Schema_object_def)
  show ?thesis
    using strict_unexpected_properties
            [of ?kvs host0 "properties_through Object_prototype" "''user''" ?schema
                "\<lparr>o_message = None, o_optional = False, ob_strict = True,
                  ob_partial = False, ob_allowNull = False\<rparr>"]
          strict_unexpected_properties
            [of ?kvs host0 "properties_through Object_prototype" "''user''" ?schema
                "\<lparr>o_message = None, o_optional = False, ob_strict = False,
                  ob_partial = False, ob_allowNull = False\<rparr>"]
    unfolding strict Schema_object_def Let_def plain_def
    by (auto simp add: a fieldPath_def createSuccess_def simp del: validateValue.simps)
qed

text \<open>
  The claim as stated fails for an own property with the key \<open>__proto__\<close>, as
  \<open>JSON.parse\<close> creates it: the object validator without strict mode answers
  \<open>{"__proto__": {"polluted": true}, "name": "test"}\<close> with a success whose data has the
  one own property \<open>name\<close>. The assignment has made the value of the key the prototype
  of the data instead.
\<close>

theorem proto_key_not_copied_counterexample:
  "validate host0 (Schema_object [(''name'', Schema_string)])
     (plain [(''__proto__'', plain [(''polluted'', JBool True)]), (''name'', JStr ''test'')])
     ''root''
   = \<lparr>isValid = True,
      data = JObj [(''name'', JStr ''test'')]
               (properties_through (plain [(''polluted'', JBool True)])),
      errors = []\<rparr>"
  by (simp add: Schema_object_def Schema_string_def validateValue_string_def apply_message_def
        createSuccess_def fieldPath_def empty_object_def assign_prop_def assign_own_def
        define_prop_def is_object_def plain_def host0_def)

subsection \<open>Custom messages\<close>

lemma isValid_replace_messages [simp]: "isValid (replace_messages m r) = isValid r"
  by (simp add: replace_messages_def)

lemma replace_messages_twice [simp]:
  "replace_messages m (replace_messages m0 r) = replace_messages m r"
  by (simp add: replace_messages_def)

lemma apply_message_as_replace:
  "m \<noteq> [] \<Longrightarrow> apply_message (Some m) r
     = (if isValid (apply_message msg r) then apply_message msg r
        else replace_messages m (apply_message msg r))"
  by (simp add: apply_message_def split: option.split)

lemma validateValue_withMessage:
  "isBaseValidator validator
   \<Longrightarrow> validateValue H (withMessage m validator) v p = validateValue H validator v p"
proof (cases validator)
  case (StringValidator opts)
  then show ?thesis
    by (simp add: validateValue_string_def Let_def
          cong: jsval.case_cong option.case_cong if_cong)
next
  case (NumberValidator opts)
  then show ?thesis
    by (simp add: validateValue_number_def Let_def
          cong: jsval.case_cong option.case_cong if_cong)
next
  case (BooleanValidator opts)
  then show ?thesis
    by (simp add: validateValue_boolean_def Let_def
          cong: jsval.case_cong option.case_cong if_cong)
next
  case (DateValidator opts)
  then show ?thesis
    by (simp add: validateValue_date_def date_format_error_def date_bound_errors_def Let_def
          cong: jsval.case_cong option.case_cong if_cong)
next
  case (ArrayValidator item opts)
  then show ?thesis
    by (simp add: Let_def cong: jsval.case_cong option.case_cong if_cong)
next
  case (ObjectValidator schema opts)
  then show ?thesis
    by (simp add: Let_def cong: jsval.case_cong option.case_cong if_cong)
qed simp_all

lemma options_withMessage:
  "isBaseValidator validator
   \<Longrightarrow> options_optional (withMessage m validator) = options_optional validator
     \<and> options_message (withMessage m validator) = Some m"
  by (cases validator) simp_all

lemma validate_base:
  "isBaseValidator validator
   \<Longrightarrow> validate H validator v p
       = (if options_optional validator \<and> (v = JUndefined \<or> v = JNull)
          then \<lparr>isValid = True, data = JUndefined, errors = []\<rparr>
          else apply_message (options_message validator) (validateValue H validator v p))"
  by (cases validator) auto

lemma isBaseValidator_withMessage:
  "isBaseValidator validator \<Longrightarrow> isBaseValidator (withMessage m validator)"
  by (cases validator) simp_all

lemma withMessage_base:
  assumes b: "isBaseValidator validator" and m: "m \<noteq> []"
  shows "validate H (withMessage m validator) v p
       = (if isValid (validate H validator v p) then validate H validator v p
          else replace_messages m (validate H validator v p))"
proof (cases "options_optional validator \<and> (v = JUndefined \<or> v = JNull)")
  case True
  then have "validate H validator v p = \<lparr>isValid = True, data = JUndefined, errors = []\<rparr>"
    by (subst validate_base [OF b]) (rule if_P)
  moreover from True
  have "validate H (withMessage m validator) v p
          = \<lparr>isValid = True, data = JUndefined, errors = []\<rparr>"
    by (subst validate_base [OF isBaseValidator_withMessage [OF b]])
       (simp add: options_withMessage [OF b])
  ultimately show ?thesis by simp
next
  case False
  let ?core = "validateValue H validator v p"
  from False have old: "validate H validator v p = apply_message (options_message validator) ?core"
    by (subst validate_base [OF b]) (rule if_not_P)
  from False have "\<not> (options_optional (withMessage m validator) \<and> (v = JUndefined \<or> v = JNull))"
    by (simp add: options_withMessage [OF b])
  then have "validate H (withMessage m validator) v p
          = apply_message (options_message (withMessage m validator))
              (validateValue H (withMessage m validator) v p)"
    by (subst validate_base [OF isBaseValidator_withMessage [OF b]]) (rule if_not_P)
  then have new: "validate H (withMessage m validator) v p = apply_message (Some m) ?core"
    by (simp add: validateValue_withMessage [OF b] options_withMessage [OF b])
  show ?thesis
    unfolding old new by (rule apply_message_as_replace [OF m])
qed

text \<open>
  The six classes test the message for truthiness, so the empty message replaces
  nothing: the result is that of the core check.
\<close>

lemma withMessage_empty_base:
  assumes b: "isBaseValidator validator"
  shows "validate H (withMessage [] validator) v p
           = (if options_optional validator \<and> (v = JUndefined \<or> v = JNull)
              then \<lparr>isValid = True, data = JUndefined, errors = []\<rparr>
              else validateValue H validator v p)"
proof (cases "options_optional validator \<and> (v = JUndefined \<or> v = JNull)")
  case True
  then have "validate H (withMessage [] validator) v p
          = \<lparr>isValid = True, data = JUndefined, errors = []\<rparr>"
    by (subst validate_base [OF isBaseValidator_withMessage [OF b]])
       (simp add: options_withMessage [OF b])
  with True show ?thesis by auto
next
  case False
  then have "\<not> (options_optional (withMessage [] validator) \<and> (v = JUndefined \<or> v = JNull))"
    by (simp add: options_withMessage [OF b])
  then have "validate H (withMessage [] validator) v p
          = apply_message (options_message (withMessage [] validator))
              (validateValue H (withMessage [] validator) v p)"
    by (subst validate_base [OF isBaseValidator_withMessage [OF b]]) (rule if_not_P)
  then have "validate H (withMessage [] validator) v p = validateValue H validator v p"
    by (simp add: validateValue_withMessage [OF b] options_withMessage [OF b] apply_message_def)
  with False show ?thesis by auto
qed

text \<open>
  Claim C7, as the code has it. For every validator and every message \<open>m\<close> other than
  the empty string, the validator configured with \<open>withMessage(m)\<close> returns on a failing
  input the failure of the validator without it, every error carrying the message \<open>m\<close>
  and keeping its path and its value, and on every other input the same result. The base
  class applies a message only when it is truthy, so the empty string replaces nothing.
\<close>

theorem withMessage_replaces_messages:
  "m \<noteq> []
   \<Longrightarrow> validate H (withMessage m validator) v p
       = (if isValid (validate H validator v p) then validate H validator v p
          else replace_messages m (validate H validator v p))"
proof (induction validator arbitrary: v p)
  case AnyValidator
  then show ?case by (simp add: Schema_any_def)
next
  case (NullableValidator validator)
  then show ?case by (simp add: Schema_nullable_def)
next
  case (UnionValidator validators msg)
  then show ?case
    by (simp add: union_message_def split: option.split)
qed (rule withMessage_base; simp)+

theorem withMessage_replaces_messages_witness:
  "''custom'' \<noteq> []
   \<and> validate host0 (withMessage ''custom'' Schema_string) (JNum (Fin 1)) ''root''
     = createFailure [createError ''root'' ''custom'' (JNum (Fin 1))]
   \<and> validate host0 (withMessage ''custom'' Schema_string) (JStr ''x'') ''root''
     = createSuccess (JStr ''x'')"
proof -
  have "validate host0 Schema_string (JNum (Fin 1)) ''root''
          = createFailure [createError ''root'' ''Expected string, received number'' (JNum (Fin 1))]"
    by (simp add: Schema_string_def validateValue_string_def apply_message_def)
  moreover have "validate host0 Schema_string (JStr ''x'') ''root'' = createSuccess (JStr ''x'')"
    by (simp add: Schema_string_def validateValue_string_def apply_message_def
          createSuccess_def)
  ultimately show ?thesis
    using withMessage_replaces_messages
            [of "''custom''" host0 Schema_string "JNum (Fin 1)" "''root''"]
          withMessage_replaces_messages
            [of "''custom''" host0 Schema_string "JStr ''x''" "''root''"]
    by (simp add: createFailure_def createSuccess_def createError_def replace_messages_def)
qed

text \<open>
  The claim as stated fails for the empty message: \<open>string().withMessage("")\<close> reports its
  own text.
\<close>

theorem withMessage_empty_counterexample:
  "map message (errors (validate host0 (withMessage [] Schema_string) (JNum (Fin 1)) ''root''))
     = [''Expected string, received number'']"
  by (simp add: Schema_string_def validateValue_string_def apply_message_def createFailure_def
        createError_def)

subsection \<open>The result invariant\<close>
































subsection \<open>optional\<close>






subsection \<open>Array validator: duplicates\<close>

text \<open>
  Claim C5. The duplicate errors of a unique array carry the index of the repeated item
  in the list of validated items. An item that passes without data, as \<open>undefined\<close> does
  for an optional item validator, is not in that list, so for \<open>[undefined, 1, 1]\<close> the
  error is at \<open>root[1]\<close>, the path of the first occurrence, and not at \<open>root[2]\<close>. Where
  no item is left out the index is that of the input: \<open>[1, 2, 1]\<close> fails with exactly one
  error, at \<open>root[2]\<close>.
\<close>

theorem unique_index_after_dropped_item:
  "validate H (the (configure Unique (Schema_array (optional Schema_number))))
     (JArr [JUndefined, JNum (Fin 1), JNum (Fin 1)]) ''root''
   = createFailure [createError ''root[1]'' ''Array items must be unique'' (JNum (Fin 1))]
   \<and> validate H (the (configure Unique (Schema_array Schema_number)))
       (JArr [JNum (Fin 1), JNum (Fin 2), JNum (Fin 1)]) ''root''
     = createFailure [createError ''root[2]'' ''Array items must be unique'' (JNum (Fin 1))]"
proof -
  have one: "validateValue_number H opts (JNum (Fin 1)) q = createSuccess (JNum (Fin 1))"
    if "n_min opts = None" "n_max opts = None" "\<not> n_integer opts" "\<not> n_positive opts"
       "\<not> n_negative opts" "\<not> n_finite opts" "n_multipleOf opts = None" for opts q
    using that by (simp add: validateValue_number_def push_if_def)
  have two: "validateValue_number H opts (JNum (Fin 2)) q = createSuccess (JNum (Fin 2))"
    if "n_min opts = None" "n_max opts = None" "\<not> n_integer opts" "\<not> n_positive opts"
       "\<not> n_negative opts" "\<not> n_finite opts" "n_multipleOf opts = None" for opts q
    using that by (simp add: validateValue_number_def push_if_def)
  have upt3: "[0..<3] = [0, 1, 2]"
    by (simp add: upt_rec)
  show ?thesis
    by (simp add: Schema_array_def Schema_number_def one two upt3 apply_message_def
          createSuccess_def createFailure_def push_if_def itemPath_def show_nat.simps
          digit_char_def unique_key_def)
qed

section \<open>Configuration methods do not write\<close>

subsection \<open>Allocation only appends\<close>

lemma withMessage_at_appends:
  "withMessage_at m a hp = Some (a', hp')
   \<Longrightarrow> (\<exists>ext. hp' = hp @ ext) \<and> length hp \<le> a' \<and> a' < length hp'"
proof (induction m a hp arbitrary: a' hp' rule: withMessage_at.induct)
  case (1 m a hp)
  show ?case
  proof (cases "\<exists>c. hp ! a = ONullable c")
    case True
    then obtain c where c: "hp ! a = ONullable c" by blast
    with "1.prems" have lt: "a < length hp" "c < a"
      by (auto simp: withMessage_at.simps [of m a hp] split: if_splits)
    with c "1.prems" obtain c' hp1 where
      inner: "withMessage_at m c hp = Some (c', hp1)" and
      outer: "alloc (ONullable c') hp1 = (a', hp')"
      by (auto simp: withMessage_at.simps [of m a hp] split: option.splits)
    from "1.IH" [OF lt(1) c lt(2) inner] obtain ext where "hp1 = hp @ ext"
      by blast
    with outer show ?thesis
      by (auto simp: alloc_def)
  next
    case False
    with "1.prems" show ?thesis
      by (auto simp: withMessage_at.simps [of m a hp] alloc_def split: if_splits obj.splits)
  qed
qed

lemma partial_fields_appends:
  "partial_fields flds hp = Some (flds', hp') \<Longrightarrow> \<exists>ext. hp' = hp @ ext"
proof (induction flds arbitrary: hp flds' hp')
  case Nil
  then show ?case by simp
next
  case (Cons entry flds)
  obtain key c where entry: "entry = (key, c)" by (cases entry)
  from Cons.prems entry obtain rest hp2 where
    "partial_fields flds (hp @ [optional_obj (hp ! c)]) = Some (rest, hp2)" "hp' = hp2"
    by (auto simp: alloc_def split: if_splits option.splits)
  with Cons.IH show ?case by fastforce
qed

lemma configure_object_appends:
  "configure_object c flds opts hp = Some (a', hp')
   \<Longrightarrow> (\<exists>ext. hp' = hp @ ext) \<and> length hp \<le> a' \<and> a' < length hp'"
proof (cases "c = Partial")
  case True
  assume "configure_object c flds opts hp = Some (a', hp')"
  with True obtain entries hp1 opts' where
    "partial_fields flds hp = Some (entries, hp1)"
    "alloc (OObject (assign_all entries) opts') hp1 = (a', hp')"
    by (auto simp: configure_object_def split: option.splits)
  then show ?thesis
    using partial_fields_appends [of flds hp entries hp1] by (auto simp: alloc_def)
next
  case False
  assume "configure_object c flds opts hp = Some (a', hp')"
  with False show ?thesis
    by (cases c) (auto simp: configure_object_def alloc_def split: option.splits)
qed

lemma configure_at_appends:
  "configure_at c a hp = Some (a', hp')
   \<Longrightarrow> (\<exists>ext. hp' = hp @ ext) \<and> length hp \<le> a' \<and> a' < length hp'"
proof -
  assume conf: "configure_at c a hp = Some (a', hp')"
  then have lt: "a < length hp"
    by (auto simp: configure_at_def split: if_splits)
  show ?thesis
  proof (cases "hp ! a")
    case (OObject flds opts)
    with conf lt show ?thesis
      by (simp add: configure_at_def configure_object_appends)
  next
    case OAny
    with conf lt show ?thesis
      by (cases c) (auto simp: configure_at_def alloc_def dest: withMessage_at_appends)
  next
    case (ONullable w)
    with conf lt show ?thesis
      by (cases c) (auto simp: configure_at_def alloc_def dest: withMessage_at_appends)
  next
    case (OUnion cs msg)
    with conf lt show ?thesis
      by (cases c) (auto simp: configure_at_def alloc_def dest: withMessage_at_appends)
  qed (use conf lt in \<open>auto simp: configure_at_def alloc_def\<close>)
qed

subsection \<open>Resolution is stable under allocation\<close>

lemma resolve_all_snoc:
  "resolve_all (hp @ [ob]) = resolve_all hp @ [resolve_obj (resolve_all hp) ob]"
  by (simp add: resolve_all_def)

lemma length_resolve_all [simp]: "length (resolve_all hp) = length hp"
  by (induction hp rule: rev_induct) (simp_all add: resolve_all_snoc, simp add: resolve_all_def)

lemma resolve_all_append: "\<exists>ws. resolve_all (hp @ ext) = resolve_all hp @ ws"
proof (induction ext rule: rev_induct)
  case Nil
  show ?case by simp
next
  case (snoc ob ext)
  then obtain ws where "resolve_all (hp @ ext) = resolve_all hp @ ws" by blast
  then show ?case
    using resolve_all_snoc [of "hp @ ext" ob] by simp
qed

lemma instance_at_append:
  "b < length hp \<Longrightarrow> instance_at (hp @ ext) b = instance_at hp b"
proof -
  assume b: "b < length hp"
  obtain ws where "resolve_all (hp @ ext) = resolve_all hp @ ws"
    using resolve_all_append by blast
  with b show ?thesis
    by (simp add: instance_at_def lookup_def nth_append)
qed

lemma instance_at_new:
  "instance_at (hp @ [ob]) (length hp) = resolve_obj (resolve_all hp) ob"
  by (simp add: instance_at_def lookup_def resolve_all_snoc nth_append)

lemma instance_at_Some_lt: "instance_at hp a = Some v \<Longrightarrow> a < length hp"
  by (simp add: instance_at_def lookup_def split: if_splits)

lemma lookup_mono: "lookup vs c = Some v \<Longrightarrow> lookup (vs @ ws) c = Some v"
  by (simp add: lookup_def nth_append split: if_splits)

lemma resolve_list_mono:
  "resolve_list vs cs = Some xs \<Longrightarrow> resolve_list (vs @ ws) cs = Some xs"
  by (induction cs arbitrary: xs) (auto simp: lookup_mono split: option.splits)

lemma resolve_fields_mono:
  "resolve_fields vs flds = Some xs \<Longrightarrow> resolve_fields (vs @ ws) flds = Some xs"
  by (induction flds arbitrary: xs) (auto simp: lookup_mono split: option.splits)

lemma resolve_obj_mono:
  "resolve_obj vs ob = Some v \<Longrightarrow> resolve_obj (vs @ ws) ob = Some v"
  by (cases ob) (auto simp: lookup_mono resolve_list_mono resolve_fields_mono)

text \<open>The validator at an address is the resolution of the object stored there.\<close>

lemma instance_at_resolve_obj:
  "instance_at hp a = Some v \<Longrightarrow> resolve_obj (resolve_all hp) (hp ! a) = Some v"
proof (induction hp rule: rev_induct)
  case Nil
  then show ?case by (simp add: instance_at_def lookup_def)
next
  case (snoc ob hp)
  show ?case
  proof (cases "a < length hp")
    case True
    with snoc.prems have "instance_at hp a = Some v"
      by (simp add: instance_at_append)
    with snoc.IH have "resolve_obj (resolve_all hp) (hp ! a) = Some v" by simp
    with True show ?thesis
      by (simp add: resolve_all_snoc nth_append resolve_obj_mono)
  next
    case False
    with snoc.prems have a: "a = length hp"
      using instance_at_Some_lt [of "hp @ [ob]" a v] by simp
    with snoc.prems have "resolve_obj (resolve_all hp) ob = Some v"
      by (simp add: instance_at_new)
    with a show ?thesis
      by (simp add: resolve_all_snoc resolve_obj_mono)
  qed
qed

lemma lookup_instance_at: "lookup (resolve_all hp) c = instance_at hp c"
  by (simp add: instance_at_def)

subsection \<open>The allocation is the construction of the new validator\<close>

lemma call_string_map [simp]: "call_string (map_call f c) opts = call_string c opts"
  by (cases c) simp_all

lemma call_number_map [simp]: "call_number (map_call f c) opts = call_number c opts"
  by (cases c) simp_all

lemma call_boolean_map [simp]: "call_boolean (map_call f c) opts = call_boolean c opts"
  by (cases c) simp_all

lemma call_date_map [simp]: "call_date (map_call f c) opts = call_date c opts"
  by (cases c) simp_all

lemma call_array_map [simp]: "call_array (map_call f c) opts = call_array c opts"
  by (cases c) simp_all

lemma call_object_map [simp]: "call_object (map_call f c) opts = call_object c opts"
  by (cases c) simp_all

lemma resolve_optional_obj:
  "resolve_obj vs (optional_obj ob) = map_option optional (resolve_obj vs ob)"
  by (cases ob)
     (simp_all add: option.map_comp comp_def Schema_any_def Schema_nullable_def Schema_union_def)

lemma resolve_withMessage_obj:
  "\<forall>c. ob \<noteq> ONullable c
   \<Longrightarrow> resolve_obj vs (withMessage_obj m ob) = map_option (withMessage m) (resolve_obj vs ob)"
  by (cases ob) (simp_all add: option.map_comp comp_def Schema_any_def)

lemma withMessage_at_refines:
  "withMessage_at m a hp = Some (a', hp') \<Longrightarrow> instance_at hp a = Some v
   \<Longrightarrow> instance_at hp' a' = Some (withMessage m v)"
proof (induction m a hp arbitrary: a' hp' v rule: withMessage_at.induct)
  case (1 m a hp)
  from "1.prems"(2) have lt: "a < length hp" by (rule instance_at_Some_lt)
  from "1.prems"(2) have res: "resolve_obj (resolve_all hp) (hp ! a) = Some v"
    by (rule instance_at_resolve_obj)
  show ?case
  proof (cases "\<exists>c. hp ! a = ONullable c")
    case True
    then obtain c where c: "hp ! a = ONullable c" by blast
    with "1.prems"(1) lt have ca: "c < a"
      by (auto simp: withMessage_at.simps [of m a hp] split: if_splits)
    with c lt "1.prems"(1) obtain c' hp1 where
      inner: "withMessage_at m c hp = Some (c', hp1)" and
      outer: "alloc (ONullable c') hp1 = (a', hp')"
      by (auto simp: withMessage_at.simps [of m a hp] split: option.splits)
    from res c obtain w where w: "instance_at hp c = Some w" "v = NullableValidator w"
      by (auto simp: lookup_instance_at)
    from "1.IH" [OF lt c ca inner w(1)] have "instance_at hp1 c' = Some (withMessage m w)" .
    with outer w(2) show ?thesis
      by (auto simp: alloc_def instance_at_new lookup_instance_at Schema_nullable_def)
  next
    case False
    with "1.prems"(1) lt have "a' = length hp" "hp' = hp @ [withMessage_obj m (hp ! a)]"
      by (auto simp: withMessage_at.simps [of m a hp] alloc_def split: obj.splits)
    with False res show ?thesis
      by (simp add: instance_at_new resolve_withMessage_obj)
  qed
qed

lemma resolve_fields_Some_iff:
  "resolve_fields vs flds = Some schema
   \<longleftrightarrow> (\<forall>e \<in> set flds. lookup vs (snd e) \<noteq> None)
       \<and> schema = map (map_prod id (\<lambda>r. the (lookup vs r))) flds"
  by (induction flds arbitrary: schema) (force split: option.splits)+

lemma partial_fields_refines:
  "partial_fields flds hp = Some (flds', hp')
   \<Longrightarrow> resolve_fields (resolve_all hp) flds = Some schema
   \<Longrightarrow> resolve_fields (resolve_all hp') flds'
       = Some (map (\<lambda>entry. (fst entry, optional (snd entry))) schema)"
proof (induction flds arbitrary: hp flds' hp' schema)
  case Nil
  then show ?case by simp
next
  case (Cons entry flds)
  obtain key c where entry: "entry = (key, c)" by (cases entry)
  let ?hp1 = "hp @ [optional_obj (hp ! c)]"
  from Cons.prems(1) entry obtain rest where
    rest: "partial_fields flds ?hp1 = Some (rest, hp')" and
    flds': "flds' = (key, length hp) # rest" and c: "c < length hp"
    by (auto simp: alloc_def split: if_splits option.splits)
  from Cons.prems(2) entry obtain v schema' where
    v: "instance_at hp c = Some v" and
    schema': "resolve_fields (resolve_all hp) flds = Some schema'" and
    schema: "schema = (key, v) # schema'"
    by (auto simp: lookup_instance_at split: option.splits)
  from schema' have "resolve_fields (resolve_all ?hp1) flds = Some schema'"
    by (simp add: resolve_all_snoc resolve_fields_mono)
  from Cons.IH [OF rest this]
  have tail: "resolve_fields (resolve_all hp') rest
                = Some (map (\<lambda>entry. (fst entry, optional (snd entry))) schema')" .
  from partial_fields_appends [OF rest] obtain ext where ext: "hp' = ?hp1 @ ext" by blast
  from v have "instance_at ?hp1 (length hp) = Some (optional v)"
    by (simp add: instance_at_new resolve_optional_obj instance_at_resolve_obj)
  then have "instance_at hp' (length hp) = Some (optional v)"
    unfolding ext by (subst instance_at_append) simp_all
  with tail flds' schema show ?case
    by (simp add: lookup_instance_at)
qed

lemma map_fst_map_prod [simp]: "map fst (map (map_prod id f) xs) = map fst xs"
  by (induction xs) auto

lemma map_insert_prop:
  "map (map_prod id f) (insert_prop xs key x) = insert_prop (map (map_prod id f) xs) key (f x)"
  by (induction xs key x rule: insert_prop.induct) auto

lemma map_replace_prop:
  "map (map_prod id f) (replace_prop xs key x) = replace_prop (map (map_prod id f) xs) key (f x)"
  by (induction xs key x rule: replace_prop.induct) auto

lemma map_define_prop:
  "map (map_prod id f) (define_prop xs key x) = define_prop (map (map_prod id f) xs) key (f x)"
  by (simp add: define_prop_def map_insert_prop map_replace_prop del: set_map)

lemma map_assign_own:
  "map (map_prod id f) (assign_own xs key x) = assign_own (map (map_prod id f) xs) key (f x)"
  by (simp add: assign_own_def map_define_prop)

lemma assign_fold_natural:
  "map (map_prod id f) (foldl (\<lambda>obj entry. assign_own obj (fst entry) (snd entry)) acc es)
   = foldl (\<lambda>obj entry. assign_own obj (fst entry) (snd entry)) (map (map_prod id f) acc)
       (map (map_prod id f) es)"
  by (induction es arbitrary: acc) (simp_all add: map_assign_own)

lemma assign_all_natural:
  "map (map_prod id f) (assign_all es) = assign_all (map (map_prod id f) es)"
  using assign_fold_natural [of f "[]" es] by (simp add: assign_all_def)

lemma set_insert_prop: "set (insert_prop xs key x) = insert (key, x) (set xs)"
  by (induction xs key x rule: insert_prop.induct) auto

lemma set_replace_prop: "set (replace_prop xs key x) \<subseteq> insert (key, x) (set xs)"
  by (induction xs key x rule: replace_prop.induct) auto

lemma set_define_prop: "set (define_prop xs key x) \<subseteq> insert (key, x) (set xs)"
  using set_replace_prop [of xs key x] by (simp add: define_prop_def set_insert_prop del: set_map)

lemma set_assign_own: "set (assign_own xs key x) \<subseteq> insert (key, x) (set xs)"
  using set_define_prop [of xs key x] by (auto simp: assign_own_def)

lemma assign_fold_subset:
  "set (foldl (\<lambda>obj entry. assign_own obj (fst entry) (snd entry)) acc es)
     \<subseteq> set acc \<union> set es"
proof (induction es arbitrary: acc)
  case Nil
  show ?case by simp
next
  case (Cons entry es)
  have "set (assign_own acc (fst entry) (snd entry)) \<subseteq> insert entry (set acc)"
    using set_assign_own [of acc "fst entry" "snd entry"] by simp
  with Cons [of "assign_own acc (fst entry) (snd entry)"] show ?case
    by auto
qed

lemma assign_all_subset: "set (assign_all es) \<subseteq> set es"
  using assign_fold_subset [of "[]" es] by (simp add: assign_all_def)

lemma map_of_map_prod:
  "map_of (map (map_prod id f) xs) key = map_option f (map_of xs key)"
  by (induction xs) auto

lemma pick_fold_natural:
  "map (map_prod id f)
     (foldl (\<lambda>pickedSchema key.
               case map_of flds key of
                 None \<Rightarrow> pickedSchema
               | Some validator \<Rightarrow> assign_own pickedSchema key validator) acc ks)
   = foldl (\<lambda>pickedSchema key.
              case map_of (map (map_prod id f) flds) key of
                None \<Rightarrow> pickedSchema
              | Some validator \<Rightarrow> assign_own pickedSchema key validator)
       (map (map_prod id f) acc) ks"
  by (induction ks arbitrary: acc)
     (auto simp: map_of_map_prod map_assign_own split: option.splits)

lemma pick_schema_natural:
  "map (map_prod id f) (pick_schema ks flds) = pick_schema ks (map (map_prod id f) flds)"
  using pick_fold_natural [of f flds "[]" ks] by (simp add: pick_schema_def)

lemma pick_fold_subset:
  "set acc \<subseteq> set flds
   \<Longrightarrow> set (foldl (\<lambda>pickedSchema key.
                   case map_of flds key of
                     None \<Rightarrow> pickedSchema
                   | Some validator \<Rightarrow> assign_own pickedSchema key validator) acc ks)
       \<subseteq> set flds"
proof (induction ks arbitrary: acc)
  case Nil
  then show ?case by simp
next
  case (Cons key ks)
  show ?case
  proof (cases "map_of flds key")
    case None
    with Cons show ?thesis by simp
  next
    case (Some x)
    then have "(key, x) \<in> set flds" by (rule map_of_SomeD)
    with Cons.prems have "set (assign_own acc key x) \<subseteq> set flds"
      using set_assign_own [of acc key x] by auto
    with Cons.IH Some show ?thesis by simp
  qed
qed

lemma pick_schema_subset: "set (pick_schema ks flds) \<subseteq> set flds"
  using pick_fold_subset [of "[]" flds ks] by (simp add: pick_schema_def)

lemma omit_schema_natural:
  "map (map_prod id f) (omit_schema ks flds) = omit_schema ks (map (map_prod id f) flds)"
  by (simp add: omit_schema_def assign_all_natural filter_map comp_def)

lemma omit_schema_subset: "set (omit_schema ks flds) \<subseteq> set flds"
  using assign_all_subset [of "filter (\<lambda>entry. fst entry \<notin> set ks) flds"]
  by (auto simp: omit_schema_def)

lemma extend_schema_natural:
  "map (map_prod id f) (extend_schema extension flds)
     = extend_schema (map (map_prod id f) extension) (map (map_prod id f) flds)"
  unfolding extend_schema_def
  by (induction extension arbitrary: flds) (simp_all add: map_define_prop)

lemma extend_schema_subset:
  "set (extend_schema extension flds) \<subseteq> set extension \<union> set flds"
  unfolding extend_schema_def
proof (induction extension arbitrary: flds)
  case Nil
  show ?case by simp
next
  case (Cons entry extension)
  have "set (define_prop flds (fst entry) (snd entry)) \<subseteq> insert entry (set flds)"
    using set_define_prop [of flds "fst entry" "snd entry"] by simp
  with Cons [of "define_prop flds (fst entry) (snd entry)"] show ?case
    by auto
qed

lemma resolve_fields_sub:
  assumes "resolve_fields vs flds = Some schema"
    and "set flds' \<subseteq> set flds \<union> set extension"
    and "\<forall>e \<in> set extension. lookup vs (snd e) \<noteq> None"
  shows "resolve_fields vs flds' = Some (map (map_prod id (\<lambda>r. the (lookup vs r))) flds')"
  using assms unfolding resolve_fields_Some_iff by blast

lemma configure_object_refines:
  assumes conf: "configure_object c flds opts hp = Some (a', hp')"
    and res: "resolve_fields (resolve_all hp) flds = Some schema"
    and args: "\<forall>r \<in> set_call c. instance_at hp r \<noteq> None"
  shows "instance_at hp' a'
           = map_option
               (ObjectValidator (call_schema (map_call (\<lambda>r. the (instance_at hp r)) c) schema))
               (call_object c opts)"
proof -
  let ?vs = "resolve_all hp"
  let ?g = "map_prod id (\<lambda>r. the (lookup ?vs r))"
  from conf obtain opts' where opts': "call_object c opts = Some opts'"
    by (auto simp: configure_object_def split: option.splits)
  from res have schema: "schema = map ?g flds"
    by (simp add: resolve_fields_Some_iff)
  have same: "(\<lambda>r. the (instance_at hp r)) = (\<lambda>r. the (lookup ?vs r))"
    by (simp add: lookup_instance_at)
  show ?thesis
  proof (cases c)
    case Partial
    with conf opts' obtain entries hp1 where
      p: "partial_fields flds hp = Some (entries, hp1)" and
      new: "hp' = hp1 @ [OObject (assign_all entries) opts']" "a' = length hp1"
      by (auto simp: configure_object_def alloc_def split: option.splits)
    let ?g1 = "map_prod id (\<lambda>r. the (lookup (resolve_all hp1) r))"
    from partial_fields_refines [OF p res]
    have entries: "resolve_fields (resolve_all hp1) entries
                     = Some (map (\<lambda>entry. (fst entry, optional (snd entry))) schema)" .
    then have "map ?g1 entries = map (\<lambda>entry. (fst entry, optional (snd entry))) schema"
      by (simp add: resolve_fields_Some_iff)
    moreover have "resolve_fields (resolve_all hp1) (assign_all entries)
                     = Some (map ?g1 (assign_all entries))"
      using entries assign_all_subset [of entries]
      by (intro resolve_fields_sub [where extension = "[]"]) auto
    ultimately have "resolve_fields (resolve_all hp1) (assign_all entries)
                     = Some (assign_all (map (\<lambda>entry. (fst entry, optional (snd entry))) schema))"
      by (simp add: assign_all_natural)
    with new opts' Partial show ?thesis
      by (simp add: instance_at_new)
  next
    case (Pick ks)
    have "resolve_fields ?vs (pick_schema ks flds) = Some (map ?g (pick_schema ks flds))"
      using res pick_schema_subset [of ks flds]
      by (intro resolve_fields_sub [where extension = "[]"]) auto
    with conf opts' Pick schema show ?thesis
      by (auto simp: configure_object_def alloc_def instance_at_new pick_schema_natural)
  next
    case (Omit ks)
    have "resolve_fields ?vs (omit_schema ks flds) = Some (map ?g (omit_schema ks flds))"
      using res omit_schema_subset [of ks flds]
      by (intro resolve_fields_sub [where extension = "[]"]) auto
    with conf opts' Omit schema show ?thesis
      by (auto simp: configure_object_def alloc_def instance_at_new omit_schema_natural)
  next
    case (Extend extension)
    with args have "\<forall>e \<in> set extension. lookup ?vs (snd e) \<noteq> None"
      by (fastforce simp: lookup_instance_at)
    then have "resolve_fields ?vs (extend_schema extension flds)
                 = Some (map ?g (extend_schema extension flds))"
      using res extend_schema_subset [of extension flds]
      by (intro resolve_fields_sub [where extension = extension]) auto
    with conf opts' Extend schema show ?thesis
      by (auto simp: configure_object_def alloc_def instance_at_new extend_schema_natural same)
  qed (use conf opts' res in \<open>auto simp: configure_object_def alloc_def instance_at_new\<close>)
qed

lemma configure_at_refines:
  assumes conf: "configure_at c a hp = Some (a', hp')"
    and inst: "instance_at hp a = Some v1"
    and args: "\<forall>r \<in> set_call c. instance_at hp r \<noteq> None"
  shows "instance_at hp' a' = configure (map_call (\<lambda>r. the (instance_at hp r)) c) v1"
proof -
  from inst have lt: "a < length hp" by (rule instance_at_Some_lt)
  from inst have res: "resolve_obj (resolve_all hp) (hp ! a) = Some v1"
    by (rule instance_at_resolve_obj)
  have literal: ?thesis
    if ob: "hp ! a = OAny \<or> (\<exists>w. hp ! a = ONullable w) \<or> (\<exists>cs msg. hp ! a = OUnion cs msg)"
  proof -
    from ob res have nb: "\<not> isBaseValidator v1" by auto
    from ob conf lt have c: "c = Optional \<or> (\<exists>m. c = WithMessage m)"
      by (cases c) (auto simp: configure_at_def)
    show ?thesis
    proof (cases "c = Optional")
      case True
      with ob conf lt have "hp' = hp @ [optional_obj (hp ! a)]" "a' = length hp"
        by (auto simp: configure_at_def alloc_def)
      with res True nb show ?thesis
        by (cases v1) (simp_all add: instance_at_new resolve_optional_obj)
    next
      case False
      with c obtain m where m: "c = WithMessage m" by blast
      with ob conf lt have "withMessage_at m a hp = Some (a', hp')"
        by (auto simp: configure_at_def)
      from withMessage_at_refines [OF this inst] m nb show ?thesis
        by (cases v1) simp_all
    qed
  qed
  show ?thesis
  proof (cases "hp ! a")
    case (OObject flds opts)
    with res obtain schema where
      schema: "resolve_fields (resolve_all hp) flds = Some schema" and
      v1: "v1 = ObjectValidator schema opts"
      by auto
    from conf lt OObject have "configure_object c flds opts hp = Some (a', hp')"
      by (simp add: configure_at_def)
    from configure_object_refines [OF this schema args] v1 show ?thesis
      by simp
  next
    case OAny
    then show ?thesis by (simp add: literal)
  next
    case (ONullable w)
    then show ?thesis by (simp add: literal)
  next
    case (OUnion cs msg)
    then show ?thesis by (simp add: literal)
  qed (use conf lt res in \<open>auto simp: configure_at_def alloc_def instance_at_new\<close>)
qed

subsection \<open>The options and the schema of the new instance\<close>

lemma call_string_merged:
  "call_string c opts = Some opts'
   \<Longrightarrow> opts'
       = (case c of
            MinLength n \<Rightarrow> opts\<lparr>s_minLength := Some n\<rparr>
          | MaxLength n \<Rightarrow> opts\<lparr>s_maxLength := Some n\<rparr>
          | Length lo hi \<Rightarrow> opts\<lparr>s_minLength := Some lo, s_maxLength := Some hi\<rparr>
          | Pattern test \<Rightarrow> opts\<lparr>s_pattern := Some test\<rparr>
          | Trim \<Rightarrow> opts\<lparr>s_trim := True\<rparr>
          | Email \<Rightarrow> opts\<lparr>s_email := True\<rparr>
          | Url \<Rightarrow> opts\<lparr>s_url := True\<rparr>
          | Uuid \<Rightarrow> opts\<lparr>s_uuid := True\<rparr>
          | Optional \<Rightarrow> opts\<lparr>o_optional := True\<rparr>
          | WithMessage m \<Rightarrow> opts\<lparr>o_message := Some m\<rparr>
          | _ \<Rightarrow> opts)"
  by (cases c) auto

lemma call_number_merged:
  "call_number c opts = Some opts'
   \<Longrightarrow> opts'
       = (case c of
            Min n \<Rightarrow> opts\<lparr>n_min := Some n\<rparr>
          | Max n \<Rightarrow> opts\<lparr>n_max := Some n\<rparr>
          | Range lo hi \<Rightarrow> opts\<lparr>n_min := Some lo, n_max := Some hi\<rparr>
          | Integer \<Rightarrow> opts\<lparr>n_integer := True\<rparr>
          | Positive \<Rightarrow> opts\<lparr>n_positive := True\<rparr>
          | Negative \<Rightarrow> opts\<lparr>n_negative := True\<rparr>
          | Finite \<Rightarrow> opts\<lparr>n_finite := True\<rparr>
          | MultipleOf n \<Rightarrow> opts\<lparr>n_multipleOf := Some n\<rparr>
          | Optional \<Rightarrow> opts\<lparr>o_optional := True\<rparr>
          | WithMessage m \<Rightarrow> opts\<lparr>o_message := Some m\<rparr>
          | _ \<Rightarrow> opts)"
  by (cases c) auto

lemma call_boolean_merged:
  "call_boolean c opts = Some opts'
   \<Longrightarrow> opts'
       = (case c of
            Strict \<Rightarrow> opts\<lparr>b_strict := True\<rparr>
          | Truthy \<Rightarrow> opts\<lparr>b_truthy := True\<rparr>
          | Optional \<Rightarrow> opts\<lparr>o_optional := True\<rparr>
          | WithMessage m \<Rightarrow> opts\<lparr>o_message := Some m\<rparr>
          | _ \<Rightarrow> opts)"
  by (cases c) auto

lemma call_date_merged:
  "call_date c opts = Some opts'
   \<Longrightarrow> opts'
       = (case c of
            MinDate d \<Rightarrow> opts\<lparr>d_min := Some d\<rparr>
          | MaxDate d \<Rightarrow> opts\<lparr>d_max := Some d\<rparr>
          | RangeDate lo hi \<Rightarrow> opts\<lparr>d_min := Some lo, d_max := Some hi\<rparr>
          | Past now \<Rightarrow> opts\<lparr>d_max := Some now\<rparr>
          | Future now \<Rightarrow> opts\<lparr>d_min := Some now\<rparr>
          | IsoFormat \<Rightarrow> opts\<lparr>d_format := Some Iso\<rparr>
          | TimestampFormat \<Rightarrow> opts\<lparr>d_format := Some Timestamp\<rparr>
          | Optional \<Rightarrow> opts\<lparr>o_optional := True\<rparr>
          | WithMessage m \<Rightarrow> opts\<lparr>o_message := Some m\<rparr>
          | _ \<Rightarrow> opts)"
  by (cases c) auto

lemma call_array_merged:
  "call_array c opts = Some opts'
   \<Longrightarrow> opts'
       = (case c of
            MinLength n \<Rightarrow> opts\<lparr>a_minLength := Some n\<rparr>
          | MaxLength n \<Rightarrow> opts\<lparr>a_maxLength := Some n\<rparr>
          | Length lo hi \<Rightarrow> opts\<lparr>a_minLength := Some lo, a_maxLength := Some hi\<rparr>
          | Unique \<Rightarrow> opts\<lparr>a_unique := True\<rparr>
          | NoEmpty \<Rightarrow> opts\<lparr>a_noEmpty := True\<rparr>
          | Optional \<Rightarrow> opts\<lparr>o_optional := True\<rparr>
          | WithMessage m \<Rightarrow> opts\<lparr>o_message := Some m\<rparr>
          | _ \<Rightarrow> opts)"
  by (cases c) auto

lemma call_object_merged:
  "call_object c opts = Some opts'
   \<Longrightarrow> opts'
       = (case c of
            Strict \<Rightarrow> opts\<lparr>ob_strict := True\<rparr>
          | AllowNull \<Rightarrow> opts\<lparr>ob_allowNull := True\<rparr>
          | Partial \<Rightarrow> opts\<lparr>ob_partial := True\<rparr>
          | Optional \<Rightarrow> opts\<lparr>o_optional := True\<rparr>
          | WithMessage m \<Rightarrow> opts\<lparr>o_message := Some m\<rparr>
          | _ \<Rightarrow> opts)"
  by (cases c) auto

lemma map_of_pick_fold:
  "map_of (foldl (\<lambda>pickedSchema key.
                    case map_of flds key of
                      None \<Rightarrow> pickedSchema
                    | Some validator \<Rightarrow> assign_own pickedSchema key validator) acc ks) key
   = (if key \<in> set ks \<and> key \<noteq> ''__proto__'' \<and> map_of flds key \<noteq> None then map_of flds key
      else map_of acc key)"
  by (induction ks arbitrary: acc) (auto simp: map_of_assign_own split: option.splits)

lemma map_of_pick_schema:
  "map_of (pick_schema ks flds) key
     = (if key \<in> set ks \<and> key \<noteq> ''__proto__'' then map_of flds key else None)"
  using map_of_pick_fold [of flds "[]" ks key] by (auto simp: pick_schema_def)

lemma map_of_assign_fold:
  "distinct (map fst es)
   \<Longrightarrow> map_of (foldl (\<lambda>obj entry. assign_own obj (fst entry) (snd entry)) acc es) key
       = (if key \<noteq> ''__proto__'' \<and> key \<in> fst ` set es then map_of es key else map_of acc key)"
proof (induction es arbitrary: acc)
  case Nil
  show ?case by simp
next
  case (Cons entry es)
  from Cons.prems have "distinct (map fst es)" "fst entry \<notin> fst ` set es"
    by auto
  with Cons.IH [of "assign_own acc (fst entry) (snd entry)"] show ?case
    by (cases entry) (auto simp: map_of_assign_own)
qed

lemma map_of_assign_all:
  assumes "distinct (map fst es)"
  shows "map_of (assign_all es) key = (if key = ''__proto__'' then None else map_of es key)"
proof -
  have "map_of es key = None" if "key \<notin> fst ` set es"
    using that by (simp add: map_of_eq_None_iff)
  then show ?thesis
    using map_of_assign_fold [OF assms, of "[]" key] by (auto simp: assign_all_def)
qed

lemma map_of_filter_key:
  "map_of (filter (\<lambda>entry. P (fst entry)) xs) key = (if P key then map_of xs key else None)"
  by (induction xs) auto

lemma map_of_omit_schema:
  "distinct (map fst flds)
   \<Longrightarrow> map_of (omit_schema ks flds) key
       = (if key \<in> set ks \<or> key = ''__proto__'' then None else map_of flds key)"
  using map_of_filter_key [of "\<lambda>key. key \<notin> set ks" flds key]
  by (simp add: omit_schema_def map_of_assign_all distinct_map_filter)

lemma map_of_extend_schema:
  "map_of (extend_schema extension flds) key
     = (case map_of (rev extension) key of Some r \<Rightarrow> Some r | None \<Rightarrow> map_of flds key)"
  unfolding extend_schema_def
  by (induction extension arbitrary: flds)
     (auto simp: map_of_define_prop map_add_def split: option.splits)

lemma partial_fields_entries:
  "partial_fields flds hp = Some (entries, hp1)
   \<Longrightarrow> list_all2 (\<lambda>fld entry. fst entry = fst fld \<and> length hp \<le> snd entry
                        \<and> snd entry < length hp1 \<and> snd fld < length hp1
                        \<and> hp1 ! snd entry = optional_obj (hp1 ! snd fld)) flds entries"
proof (induction flds arbitrary: hp entries hp1)
  case Nil
  then show ?case by simp
next
  case (Cons fld flds)
  obtain key c where fld: "fld = (key, c)" by (cases fld)
  let ?hp2 = "hp @ [optional_obj (hp ! c)]"
  from Cons.prems fld obtain rest where
    rest: "partial_fields flds ?hp2 = Some (rest, hp1)" and
    entries: "entries = (key, length hp) # rest" and c: "c < length hp"
    by (auto simp: alloc_def split: if_splits option.splits)
  from partial_fields_appends [OF rest] obtain ext where ext: "hp1 = ?hp2 @ ext" by blast
  have tail: "list_all2 (\<lambda>fld entry. fst entry = fst fld \<and> length hp \<le> snd entry
                        \<and> snd entry < length hp1 \<and> snd fld < length hp1
                        \<and> hp1 ! snd entry = optional_obj (hp1 ! snd fld)) flds rest"
    by (rule list_all2_mono [OF Cons.IH [OF rest]]) simp
  from c have "hp1 ! length hp = optional_obj (hp1 ! c)" "length hp < length hp1" "c < length hp1"
    by (simp_all add: ext nth_append)
  with tail show ?case
    by (simp add: fld entries)
qed

lemma partial_fields_schema:
  assumes p: "partial_fields flds hp = Some (entries, hp1)"
    and d: "distinct (map fst flds)"
  shows "case map_of flds key of
           None \<Rightarrow> map_of (assign_all entries) key = None
         | Some r \<Rightarrow>
             if key = ''__proto__'' then map_of (assign_all entries) key = None
             else (\<exists>r'. map_of (assign_all entries) key = Some r' \<and> length hp \<le> r'
                        \<and> r' < length hp1 \<and> r < length hp1
                        \<and> hp1 ! r' = optional_obj (hp1 ! r))"
proof -
  let ?R = "\<lambda>fld entry. fst entry = fst fld \<and> length hp \<le> snd entry
                        \<and> snd entry < length hp1 \<and> snd fld < length hp1
                        \<and> hp1 ! snd entry = optional_obj (hp1 ! snd fld)"
  from partial_fields_entries [OF p] have rel: "list_all2 ?R flds entries" .
  then have len: "length flds = length entries"
    by (rule list_all2_lengthD)
  from rel have "\<forall>i<length flds. fst (entries ! i) = fst (flds ! i)"
    by (simp add: list_all2_conv_all_nth)
  with len have "map fst entries = map fst flds"
    by (simp add: list_eq_iff_nth_eq)
  with d have de: "distinct (map fst entries)" by simp
  have own: "map_of (assign_all entries) key
               = (if key = ''__proto__'' then None else map_of entries key)"
    using de by (rule map_of_assign_all)
  show ?thesis
  proof (cases "map_of flds key")
    case None
    then have "key \<notin> fst ` set flds"
      by (simp add: map_of_eq_None_iff)
    with \<open>map fst entries = map fst flds\<close> have "key \<notin> fst ` set entries"
      by (metis set_map)
    then have "map_of entries key = None"
      by (simp add: map_of_eq_None_iff)
    with None own show ?thesis by simp
  next
    case (Some r)
    then have "(key, r) \<in> set flds" by (rule map_of_SomeD)
    then obtain i where i: "i < length flds" "flds ! i = (key, r)"
      by (auto simp: in_set_conv_nth)
    with rel have R: "?R (key, r) (entries ! i)"
      by (auto simp: list_all2_conv_all_nth)
    from i len have "entries ! i \<in> set entries" by simp
    with R have "(key, snd (entries ! i)) \<in> set entries"
      by (metis fst_conv prod.collapse)
    with de have "map_of entries key = Some (snd (entries ! i))"
      by simp
    with Some own R show ?thesis by auto
  qed
qed

lemma configure_at_object:
  assumes conf: "configure_at c a hp = Some (a', hp')"
    and ob: "hp ! a = OObject flds opts"
  shows "\<exists>flds'. hp' ! a'
                  = OObject flds'
                      (case c of
                         Strict \<Rightarrow> opts\<lparr>ob_strict := True\<rparr>
                       | AllowNull \<Rightarrow> opts\<lparr>ob_allowNull := True\<rparr>
                       | Partial \<Rightarrow> opts\<lparr>ob_partial := True\<rparr>
                       | Optional \<Rightarrow> opts\<lparr>o_optional := True\<rparr>
                       | WithMessage m \<Rightarrow> opts\<lparr>o_message := Some m\<rparr>
                       | _ \<Rightarrow> opts)
                \<and> (case c of
                     Pick ks \<Rightarrow>
                       set ks \<subseteq> set (map fst flds)
                       \<longrightarrow> (\<forall>key. map_of flds' key
                                    = (if key \<in> set ks \<and> key \<noteq> ''__proto__''
                                       then map_of flds key
                                       else None))
                   | Omit ks \<Rightarrow>
                       distinct (map fst flds)
                       \<longrightarrow> (\<forall>key. map_of flds' key
                                    = (if key \<in> set ks \<or> key = ''__proto__'' then None
                                       else map_of flds key))
                   | Extend extension \<Rightarrow>
                       \<forall>key. map_of flds' key
                               = (case map_of (rev extension) key of
                                    Some r \<Rightarrow> Some r
                                  | None \<Rightarrow> map_of flds key)
                   | Partial \<Rightarrow>
                       distinct (map fst flds)
                       \<longrightarrow> (\<forall>key. case map_of flds key of
                                     None \<Rightarrow> map_of flds' key = None
                                   | Some r \<Rightarrow>
                                       if key = ''__proto__'' then map_of flds' key = None
                                       else (\<exists>r'. map_of flds' key = Some r' \<and> length hp \<le> r'
                                                  \<and> r' < length hp' \<and> r < length hp'
                                                  \<and> hp' ! r' = optional_obj (hp' ! r)))
                   | _ \<Rightarrow> flds' = flds)"
proof -
  from conf ob have co: "configure_object c flds opts hp = Some (a', hp')"
    by (auto simp: configure_at_def split: if_splits)
  then obtain opts' where opts': "call_object c opts = Some opts'"
    by (auto simp: configure_object_def split: option.splits)
  note merged = call_object_merged [OF opts']
  show ?thesis
  proof (cases c)
    case Partial
    with co opts' obtain entries hp1 where
      p: "partial_fields flds hp = Some (entries, hp1)" and
      new: "hp' = hp1 @ [OObject (assign_all entries) opts']" "a' = length hp1"
      by (auto simp: configure_object_def alloc_def split: option.splits)
    have "case map_of flds key of
            None \<Rightarrow> map_of (assign_all entries) key = None
          | Some r \<Rightarrow>
              if key = ''__proto__'' then map_of (assign_all entries) key = None
              else (\<exists>r'. map_of (assign_all entries) key = Some r' \<and> length hp \<le> r'
                         \<and> r' < length hp' \<and> r < length hp'
                         \<and> hp' ! r' = optional_obj (hp' ! r))"
      if "distinct (map fst flds)" for key
    proof -
      have lift: "r' < length hp' \<and> r < length hp' \<and> hp' ! r' = optional_obj (hp' ! r)"
        if "r' < length hp1" "r < length hp1" "hp1 ! r' = optional_obj (hp1 ! r)" for r r'
        using that by (simp add: new(1) nth_append)
      show ?thesis
      proof (cases "map_of flds key")
        case None
        with partial_fields_schema [OF p \<open>distinct (map fst flds)\<close>, of key] show ?thesis
          by simp
      next
        case (Some r)
        with partial_fields_schema [OF p \<open>distinct (map fst flds)\<close>, of key] lift [of _ r]
        show ?thesis
          by (cases "key = ''__proto__''") auto
      qed
    qed
    moreover have "hp' ! a' = OObject (assign_all entries) opts'"
      by (simp add: new)
    ultimately show ?thesis
      using merged Partial by auto
  next
    case (Pick ks)
    with co opts' merged show ?thesis
      by (auto simp: configure_object_def alloc_def map_of_pick_schema)
  next
    case (Omit ks)
    with co opts' merged show ?thesis
      by (auto simp: configure_object_def alloc_def map_of_omit_schema)
  next
    case (Extend extension)
    with co opts' merged show ?thesis
      by (auto simp: configure_object_def alloc_def map_of_extend_schema)
  qed (use co opts' merged in \<open>auto simp: configure_object_def alloc_def\<close>)
qed

lemma map_call_Optional [simp]: "(map_call f c = Optional) = (c = Optional)"
  by (cases c) simp_all

lemma map_call_message [simp]:
  "(case map_call f c of WithMessage m \<Rightarrow> Some m | _ \<Rightarrow> x)
     = (case c of WithMessage m \<Rightarrow> Some m | _ \<Rightarrow> x)"
  by (cases c) simp_all

lemma configure_base_options:
  "isBaseValidator v1 \<Longrightarrow> configure c v1 = Some v2
   \<Longrightarrow> isBaseValidator v2
     \<and> options_optional v2 = (options_optional v1 \<or> c = Optional)
     \<and> options_message v2 = (case c of WithMessage m \<Rightarrow> Some m | _ \<Rightarrow> options_message v1)"
  by (cases v1; cases c) auto

lemma configure_at_denotes:
  assumes conf: "configure_at c a hp = Some (a', hp')"
  shows "instance_at hp a = Some v1 \<and> (\<forall>r \<in> set_call c. instance_at hp r \<noteq> None)
         \<longrightarrow> instance_at hp' a' = configure (map_call (\<lambda>r. the (instance_at hp r)) c) v1
             \<and> (isBaseValidator v1
                \<longrightarrow> (\<exists>v2. instance_at hp' a' = Some v2
                         \<and> isBaseValidator v2
                         \<and> options_optional v2 = (options_optional v1 \<or> c = Optional)
                         \<and> options_message v2
                             = (case c of WithMessage m \<Rightarrow> Some m
                                | _ \<Rightarrow> options_message v1)))"
proof (intro impI, elim conjE)
  assume inst: "instance_at hp a = Some v1"
    and args: "\<forall>r \<in> set_call c. instance_at hp r \<noteq> None"
  let ?c = "map_call (\<lambda>r. the (instance_at hp r)) c"
  have refines: "instance_at hp' a' = configure ?c v1"
    using conf inst args by (rule configure_at_refines)
  have "\<exists>v2. configure ?c v1 = Some v2" if base: "isBaseValidator v1"
  proof -
    from inst have lt: "a < length hp" by (rule instance_at_Some_lt)
    from inst have res: "resolve_obj (resolve_all hp) (hp ! a) = Some v1"
      by (rule instance_at_resolve_obj)
    from base res conf lt show ?thesis
      by (cases "hp ! a")
         (auto simp: configure_at_def configure_object_def split: option.splits)
  qed
  with refines configure_base_options [of v1 ?c]
  show "instance_at hp' a' = configure ?c v1
        \<and> (isBaseValidator v1
           \<longrightarrow> (\<exists>v2. instance_at hp' a' = Some v2
                    \<and> isBaseValidator v2
                    \<and> options_optional v2 = (options_optional v1 \<or> c = Optional)
                    \<and> options_message v2
                        = (case c of WithMessage m \<Rightarrow> Some m
                           | _ \<Rightarrow> options_message v1)))"
    by auto
qed

text \<open>
  Claim C3, as the code has it. A call of a configuration method on the instance at an
  address only allocates: the heap before the call is a prefix of the heap after it, so
  no instance that existed, the receiver and its children among them, is written; the
  address returned is new; and every instance that existed denotes the same validator
  and validates every value as before. For a receiver of one of the six classes the new
  instance is of the same class, and its options are those of the receiver except the
  ones that the method names, which take the arguments of the call. The new array
  validator has the item validator of the receiver. The new object validator has the
  schema of the receiver, except after \<open>pick\<close>, \<open>omit\<close>, \<open>extend\<close> and \<open>partial\<close>: it then
  has the picked fields, when the keys picked are keys of the schema, as the type of
  \<open>pick\<close> demands; the fields not omitted; the fields of the receiver overridden by those
  of the extension; or, for every field of the receiver, a new instance that \<open>optional()\<close>
  built from the validator of that field. A field named \<open>__proto__\<close> does not survive the
  assignments of \<open>pick\<close>, \<open>omit\<close> and \<open>partial\<close>. The new instance denotes the validator
  that the method builds from the validator of the receiver. The statement does not say
  that a literal built by \<open>any\<close>, \<open>nullable\<close> or \<open>union\<close> keeps what was configured on its
  receiver.
\<close>

theorem configure_allocates:
  "configure_at c a hp = Some (a', hp')
   \<longrightarrow> (\<exists>ext. hp' = hp @ ext)
       \<and> length hp \<le> a' \<and> a' < length hp'
       \<and> (\<forall>b<length hp.
             hp' ! b = hp ! b
             \<and> instance_at hp' b = instance_at hp b
             \<and> validate_at H hp' b v p = validate_at H hp b v p)
       \<and> (\<forall>opts. hp ! a = OString opts
             \<longrightarrow> hp' ! a'
                 = OString
                     (case c of
                        MinLength n \<Rightarrow> opts\<lparr>s_minLength := Some n\<rparr>
                      | MaxLength n \<Rightarrow> opts\<lparr>s_maxLength := Some n\<rparr>
                      | Length lo hi \<Rightarrow> opts\<lparr>s_minLength := Some lo, s_maxLength := Some hi\<rparr>
                      | Pattern test \<Rightarrow> opts\<lparr>s_pattern := Some test\<rparr>
                      | Trim \<Rightarrow> opts\<lparr>s_trim := True\<rparr>
                      | Email \<Rightarrow> opts\<lparr>s_email := True\<rparr>
                      | Url \<Rightarrow> opts\<lparr>s_url := True\<rparr>
                      | Uuid \<Rightarrow> opts\<lparr>s_uuid := True\<rparr>
                      | Optional \<Rightarrow> opts\<lparr>o_optional := True\<rparr>
                      | WithMessage m \<Rightarrow> opts\<lparr>o_message := Some m\<rparr>
                      | _ \<Rightarrow> opts))
       \<and> (\<forall>opts. hp ! a = ONumber opts
             \<longrightarrow> hp' ! a'
                 = ONumber
                     (case c of
                        Min n \<Rightarrow> opts\<lparr>n_min := Some n\<rparr>
                      | Max n \<Rightarrow> opts\<lparr>n_max := Some n\<rparr>
                      | Range lo hi \<Rightarrow> opts\<lparr>n_min := Some lo, n_max := Some hi\<rparr>
                      | Integer \<Rightarrow> opts\<lparr>n_integer := True\<rparr>
                      | Positive \<Rightarrow> opts\<lparr>n_positive := True\<rparr>
                      | Negative \<Rightarrow> opts\<lparr>n_negative := True\<rparr>
                      | Finite \<Rightarrow> opts\<lparr>n_finite := True\<rparr>
                      | MultipleOf n \<Rightarrow> opts\<lparr>n_multipleOf := Some n\<rparr>
                      | Optional \<Rightarrow> opts\<lparr>o_optional := True\<rparr>
                      | WithMessage m \<Rightarrow> opts\<lparr>o_message := Some m\<rparr>
                      | _ \<Rightarrow> opts))
       \<and> (\<forall>opts. hp ! a = OBoolean opts
             \<longrightarrow> hp' ! a'
                 = OBoolean
                     (case c of
                        Strict \<Rightarrow> opts\<lparr>b_strict := True\<rparr>
                      | Truthy \<Rightarrow> opts\<lparr>b_truthy := True\<rparr>
                      | Optional \<Rightarrow> opts\<lparr>o_optional := True\<rparr>
                      | WithMessage m \<Rightarrow> opts\<lparr>o_message := Some m\<rparr>
                      | _ \<Rightarrow> opts))
       \<and> (\<forall>opts. hp ! a = ODate opts
             \<longrightarrow> hp' ! a'
                 = ODate
                     (case c of
                        MinDate d \<Rightarrow> opts\<lparr>d_min := Some d\<rparr>
                      | MaxDate d \<Rightarrow> opts\<lparr>d_max := Some d\<rparr>
                      | RangeDate lo hi \<Rightarrow> opts\<lparr>d_min := Some lo, d_max := Some hi\<rparr>
                      | Past now \<Rightarrow> opts\<lparr>d_max := Some now\<rparr>
                      | Future now \<Rightarrow> opts\<lparr>d_min := Some now\<rparr>
                      | IsoFormat \<Rightarrow> opts\<lparr>d_format := Some Iso\<rparr>
                      | TimestampFormat \<Rightarrow> opts\<lparr>d_format := Some Timestamp\<rparr>
                      | Optional \<Rightarrow> opts\<lparr>o_optional := True\<rparr>
                      | WithMessage m \<Rightarrow> opts\<lparr>o_message := Some m\<rparr>
                      | _ \<Rightarrow> opts))
       \<and> (\<forall>item opts. hp ! a = OArray item opts
             \<longrightarrow> hp' ! a'
                 = OArray item
                     (case c of
                        MinLength n \<Rightarrow> opts\<lparr>a_minLength := Some n\<rparr>
                      | MaxLength n \<Rightarrow> opts\<lparr>a_maxLength := Some n\<rparr>
                      | Length lo hi \<Rightarrow> opts\<lparr>a_minLength := Some lo, a_maxLength := Some hi\<rparr>
                      | Unique \<Rightarrow> opts\<lparr>a_unique := True\<rparr>
                      | NoEmpty \<Rightarrow> opts\<lparr>a_noEmpty := True\<rparr>
                      | Optional \<Rightarrow> opts\<lparr>o_optional := True\<rparr>
                      | WithMessage m \<Rightarrow> opts\<lparr>o_message := Some m\<rparr>
                      | _ \<Rightarrow> opts))
       \<and> (\<forall>flds opts. hp ! a = OObject flds opts
             \<longrightarrow> (\<exists>flds'. hp' ! a'
                            = OObject flds'
                                (case c of
                                   Strict \<Rightarrow> opts\<lparr>ob_strict := True\<rparr>
                                 | AllowNull \<Rightarrow> opts\<lparr>ob_allowNull := True\<rparr>
                                 | Partial \<Rightarrow> opts\<lparr>ob_partial := True\<rparr>
                                 | Optional \<Rightarrow> opts\<lparr>o_optional := True\<rparr>
                                 | WithMessage m \<Rightarrow> opts\<lparr>o_message := Some m\<rparr>
                                 | _ \<Rightarrow> opts)
                          \<and> (case c of
                               Pick ks \<Rightarrow>
                                 set ks \<subseteq> set (map fst flds)
                                 \<longrightarrow> (\<forall>key. map_of flds' key
                                              = (if key \<in> set ks \<and> key \<noteq> ''__proto__''
                                                 then map_of flds key
                                                 else None))
                             | Omit ks \<Rightarrow>
                                 distinct (map fst flds)
                                 \<longrightarrow> (\<forall>key. map_of flds' key
                                              = (if key \<in> set ks \<or> key = ''__proto__'' then None
                                                 else map_of flds key))
                             | Extend extension \<Rightarrow>
                                 \<forall>key. map_of flds' key
                                         = (case map_of (rev extension) key of
                                              Some r \<Rightarrow> Some r
                                            | None \<Rightarrow> map_of flds key)
                             | Partial \<Rightarrow>
                                 distinct (map fst flds)
                                 \<longrightarrow> (\<forall>key. case map_of flds key of
                                               None \<Rightarrow> map_of flds' key = None
                                             | Some r \<Rightarrow>
                                                 if key = ''__proto__''
                                                 then map_of flds' key = None
                                                 else (\<exists>r'. map_of flds' key = Some r'
                                                            \<and> length hp \<le> r'
                                                            \<and> r' < length hp' \<and> r < length hp'
                                                            \<and> hp' ! r' = optional_obj (hp' ! r)))
                             | _ \<Rightarrow> flds' = flds)))
       \<and> (instance_at hp a = Some v1 \<and> (\<forall>r \<in> set_call c. instance_at hp r \<noteq> None)
          \<longrightarrow> instance_at hp' a' = configure (map_call (\<lambda>r. the (instance_at hp r)) c) v1
              \<and> (isBaseValidator v1
                 \<longrightarrow> (\<exists>v2. instance_at hp' a' = Some v2
                          \<and> isBaseValidator v2
                          \<and> options_optional v2 = (options_optional v1 \<or> c = Optional)
                          \<and> options_message v2
                              = (case c of WithMessage m \<Rightarrow> Some m
                                 | _ \<Rightarrow> options_message v1))))"
proof (rule impI, intro conjI, goal_cases)
  case 1
  then show ?case using configure_at_appends by blast
next
  case 2
  then show ?case using configure_at_appends by blast
next
  case 3
  then show ?case using configure_at_appends by blast
next
  case 4
  from configure_at_appends [OF 4] obtain ext where "hp' = hp @ ext" by blast
  then show ?case
    by (simp add: nth_append instance_at_append validate_at_def)
next
  case 5
  then show ?case
    by (auto simp: configure_at_def alloc_def split: if_splits dest!: call_string_merged)
next
  case 6
  then show ?case
    by (auto simp: configure_at_def alloc_def split: if_splits dest!: call_number_merged)
next
  case 7
  then show ?case
    by (auto simp: configure_at_def alloc_def split: if_splits dest!: call_boolean_merged)
next
  case 8
  then show ?case
    by (auto simp: configure_at_def alloc_def split: if_splits dest!: call_date_merged)
next
  case 9
  then show ?case
    by (auto simp: configure_at_def alloc_def split: if_splits dest!: call_array_merged)
next
  case 10
  from configure_at_object [OF 10] show ?case by blast
next
  case 11
  then show ?case by (rule configure_at_denotes)
qed

text \<open>
  \<open>v2 = v1.minLength(3)\<close> on the default string validator \<open>v1\<close> allocates one instance
  with the new minimum and leaves \<open>v1\<close> unconstrained: \<open>v1\<close> still accepts \<open>"ab"\<close>. And
  \<open>partial()\<close> on \<open>object({a: v1})\<close> allocates the optional copy of \<open>v1\<close> and the new
  object validator over it.
\<close>

theorem configure_allocates_witness:
  "configure_at (MinLength (Fin 3)) 0
     [OString \<lparr>o_message = None, o_optional = False, s_minLength = None, s_maxLength = None,
           s_pattern = None, s_trim = False, s_email = False, s_url = False, s_uuid = False\<rparr>]
   = Some (1, [OString \<lparr>o_message = None, o_optional = False, s_minLength = None, s_maxLength = None,
           s_pattern = None, s_trim = False, s_email = False, s_url = False, s_uuid = False\<rparr>,
               OString \<lparr>o_message = None, o_optional = False, s_minLength = Some (Fin 3),
           s_maxLength = None, s_pattern = None, s_trim = False, s_email = False,
           s_url = False, s_uuid = False\<rparr>])
   \<and> validate_at host0
       [OString \<lparr>o_message = None, o_optional = False, s_minLength = None, s_maxLength = None,
           s_pattern = None, s_trim = False, s_email = False, s_url = False, s_uuid = False\<rparr>,
        OString \<lparr>o_message = None, o_optional = False, s_minLength = Some (Fin 3),
           s_maxLength = None, s_pattern = None, s_trim = False, s_email = False,
           s_url = False, s_uuid = False\<rparr>]
       0 (JStr ''ab'') ''root''
     = Some (createSuccess (JStr ''ab''))
   \<and> instance_at
       [OString \<lparr>o_message = None, o_optional = False, s_minLength = None, s_maxLength = None,
           s_pattern = None, s_trim = False, s_email = False, s_url = False, s_uuid = False\<rparr>,
        OString \<lparr>o_message = None, o_optional = False, s_minLength = Some (Fin 3),
           s_maxLength = None, s_pattern = None, s_trim = False, s_email = False,
           s_url = False, s_uuid = False\<rparr>]
       1
     = Some (StringValidator \<lparr>o_message = None, o_optional = False, s_minLength = Some (Fin 3),
           s_maxLength = None, s_pattern = None, s_trim = False, s_email = False,
           s_url = False, s_uuid = False\<rparr>)
   \<and> distinct (map fst [(''a'', 0::nat)])
   \<and> configure_at Partial 1
       [OString \<lparr>o_message = None, o_optional = False, s_minLength = None, s_maxLength = None,
           s_pattern = None, s_trim = False, s_email = False, s_url = False, s_uuid = False\<rparr>,
        OObject [(''a'', 0)]
          \<lparr>o_message = None, o_optional = False, ob_strict = False, ob_partial = False,
           ob_allowNull = False\<rparr>]
     = Some (3,
         [OString \<lparr>o_message = None, o_optional = False, s_minLength = None, s_maxLength = None,
           s_pattern = None, s_trim = False, s_email = False, s_url = False, s_uuid = False\<rparr>,
          OObject [(''a'', 0)]
            \<lparr>o_message = None, o_optional = False, ob_strict = False, ob_partial = False,
             ob_allowNull = False\<rparr>,
          OString \<lparr>o_message = None, o_optional = True, s_minLength = None, s_maxLength = None,
           s_pattern = None, s_trim = False, s_email = False, s_url = False, s_uuid = False\<rparr>,
          OObject [(''a'', 2)]
            \<lparr>o_message = None, o_optional = False, ob_strict = False, ob_partial = True,
             ob_allowNull = False\<rparr>])"
proof -
  let ?d = "\<lparr>o_message = None, o_optional = False, s_minLength = None, s_maxLength = None,
           s_pattern = None, s_trim = False, s_email = False, s_url = False, s_uuid = False\<rparr>"
  let ?d3 = "\<lparr>o_message = None, o_optional = False, s_minLength = Some (Fin 3),
           s_maxLength = None, s_pattern = None, s_trim = False, s_email = False,
           s_url = False, s_uuid = False\<rparr>"
  let ?dopt = "\<lparr>o_message = None, o_optional = True, s_minLength = None, s_maxLength = None,
           s_pattern = None, s_trim = False, s_email = False, s_url = False, s_uuid = False\<rparr>"
  let ?o = "\<lparr>o_message = None, o_optional = False, ob_strict = False, ob_partial = False,
           ob_allowNull = False\<rparr>"
  let ?op = "\<lparr>o_message = None, o_optional = False, ob_strict = False, ob_partial = True,
           ob_allowNull = False\<rparr>"
  have conf: "configure_at (MinLength (Fin 3)) 0 [OString ?d] = Some (1, [OString ?d, OString ?d3])"
    by (simp add: configure_at_def alloc_def)
  have inst: "instance_at [OString ?d] 0 = Some (StringValidator ?d)"
    by (simp add: instance_at_def lookup_def resolve_all_def)
  have before: "validate_at host0 [OString ?d] 0 (JStr ''ab'') ''root''
                  = Some (createSuccess (JStr ''ab''))"
    by (simp add: validate_at_def inst validateValue_string_def apply_message_def
          createSuccess_def)
  have partial:
    "configure_at Partial 1 [OString ?d, OObject [(''a'', 0)] ?o]
       = Some (3, [OString ?d, OObject [(''a'', 0)] ?o, OString ?dopt, OObject [(''a'', 2)] ?op])"
    by (simp add: configure_at_def configure_object_def alloc_def assign_all_def assign_own_def
          define_prop_def)
  show ?thesis
    using configure_allocates
            [of "MinLength (Fin 3)" 0 "[OString ?d]" 1 "[OString ?d, OString ?d3]"
                host0 "JStr ''ab''" "''root''" "StringValidator ?d"]
          configure_allocates
            [of Partial 1 "[OString ?d, OObject [(''a'', 0)] ?o]" 3
                "[OString ?d, OObject [(''a'', 0)] ?o, OString ?dopt, OObject [(''a'', 2)] ?op]"
                host0 "JStr ''ab''" "''root''"]
          conf inst before partial
    by simp
qed

text \<open>
  The claim as stated fails for the literals: \<open>nullable(string()).optional()\<close> is a new
  literal around the same validator, and nothing in it records the call. It answers
  \<open>undefined\<close> with the data \<open>null\<close>, as its receiver does, where a validator that carries
  the optional flag returns no data.
\<close>

theorem nullable_optional_no_flag_counterexample:
  "configure_at Optional 1
     [OString \<lparr>o_message = None, o_optional = False, s_minLength = None, s_maxLength = None,
           s_pattern = None, s_trim = False, s_email = False, s_url = False, s_uuid = False\<rparr>,
      ONullable 0]
   = Some (2, [OString \<lparr>o_message = None, o_optional = False, s_minLength = None,
                 s_maxLength = None, s_pattern = None, s_trim = False, s_email = False,
                 s_url = False, s_uuid = False\<rparr>,
               ONullable 0, ONullable 0])
   \<and> validate_at host0
       [OString \<lparr>o_message = None, o_optional = False, s_minLength = None, s_maxLength = None,
           s_pattern = None, s_trim = False, s_email = False, s_url = False, s_uuid = False\<rparr>,
        ONullable 0, ONullable 0] 2 JUndefined ''root''
     = Some \<lparr>isValid = True, data = JNull, errors = []\<rparr>
   \<and> validate_at host0
       [OString \<lparr>o_message = None, o_optional = True, s_minLength = None, s_maxLength = None,
           s_pattern = None, s_trim = False, s_email = False, s_url = False, s_uuid = False\<rparr>]
       0 JUndefined ''root''
     = Some \<lparr>isValid = True, data = JUndefined, errors = []\<rparr>"
  by (simp add: configure_at_def alloc_def validate_at_def instance_at_def lookup_def
        resolve_all_def)

end
